theory Spec2Isabelle
  imports Main "HOL-Library.Word" "HOL-Library.Sublist"
begin

unbundle bit_operations_syntax

section \<open>JavaScript strings\<close>

text \<open>
  A JavaScript string is a sequence of UTF-16 code units. ASCII literals of the source are
  written with \<open>str\<close>; the Russian literals are spelled out as code units.
\<close>

type_synonym jsstring = "16 word list"

definition str :: "string \<Rightarrow> jsstring" where
  "str s = map (\<lambda>c. of_nat (of_char c)) s"

text \<open>
  \<open>String.prototype.trim\<close> removes the code points of WhiteSpace and LineTerminator
  (ECMA-262) from both ends.
\<close>

definition isWhiteSpace :: "16 word \<Rightarrow> bool" where
  "isWhiteSpace c \<longleftrightarrow>
     c = 0x9 \<or> c = 0xA \<or> c = 0xB \<or> c = 0xC \<or> c = 0xD \<or> c = 0x20 \<or> c = 0xA0 \<or>
     c = 0x1680 \<or> (0x2000 \<le> c \<and> c \<le> 0x200A) \<or> c = 0x2028 \<or> c = 0x2029 \<or>
     c = 0x202F \<or> c = 0x205F \<or> c = 0x3000 \<or> c = 0xFEFF"

definition trim :: "jsstring \<Rightarrow> jsstring" where
  "trim s = rev (dropWhile isWhiteSpace (rev (dropWhile isWhiteSpace s)))"

text \<open>\<open>a.includes(b)\<close>: \<open>b\<close> occurs in \<open>a\<close> as a contiguous run.\<close>

definition includesStr :: "jsstring \<Rightarrow> jsstring \<Rightarrow> bool" where
  "includesStr a b = sublist b a"

definition startsWith :: "jsstring \<Rightarrow> jsstring \<Rightarrow> bool" where
  "startsWith a b = prefix b a"

text \<open>
  \<open>String.prototype.toLowerCase\<close> follows the Unicode case mappings. On text made of
  ASCII and of the Cyrillic block U+0400..U+045F the mapping works code unit by code unit
  and is written out; on any other text it is the host's table, taken as a parameter.
\<close>

definition simpleChar :: "16 word \<Rightarrow> bool" where
  "simpleChar c \<longleftrightarrow> c < 0x80 \<or> (0x400 \<le> c \<and> c \<le> 0x45F)"

definition lowerChar :: "16 word \<Rightarrow> 16 word" where
  "lowerChar c =
     (if 0x41 \<le> c \<and> c \<le> 0x5A then c + 0x20
      else if 0x410 \<le> c \<and> c \<le> 0x42F then c + 0x20
      else if 0x400 \<le> c \<and> c \<le> 0x40F then c + 0x50
      else c)"

section \<open>Bytes and base64\<close>

type_synonym byte = "8 word"

type_synonym bytes = "byte list"

function chunks :: "nat \<Rightarrow> 'a list \<Rightarrow> 'a list list" where
  "chunks n xs = (if n = 0 \<or> xs = [] then [] else take n xs # chunks n (drop n xs))"
  by pat_completeness auto
termination
  by (relation "measure (\<lambda>(n, xs). length xs)") auto

declare chunks.simps [simp del]

definition xorBytes :: "bytes \<Rightarrow> bytes \<Rightarrow> bytes" where
  "xorBytes a b = map (\<lambda>(x, y). x XOR y) (zip a b)"

text \<open>\<open>buf.toString('base64')\<close>: the standard alphabet, padded with \<open>=\<close>.\<close>

definition b64alphabet :: jsstring where
  "b64alphabet = str ''ABCDEFGHIJKLMNOPQRSTUVWXYZabcdefghijklmnopqrstuvwxyz0123456789+/''"

definition b64char :: "nat \<Rightarrow> 16 word" where
  "b64char i = b64alphabet ! i"

fun toBase64 :: "bytes \<Rightarrow> jsstring" where
  "toBase64 [] = []"
| "toBase64 [a] =
     [b64char (unat a div 4), b64char (unat a mod 4 * 16), 0x3D, 0x3D]"
| "toBase64 [a, b] =
     [b64char (unat a div 4), b64char (unat a mod 4 * 16 + unat b div 16),
      b64char (unat b mod 16 * 4), 0x3D]"
| "toBase64 (a # b # c # rest) =
     [b64char (unat a div 4), b64char (unat a mod 4 * 16 + unat b div 16),
      b64char (unat b mod 16 * 4 + unat c div 64), b64char (unat c mod 64)] @ toBase64 rest"

text \<open>
  \<open>Buffer.from(s, 'base64')\<close> never throws. Node's decoder reads each code unit as a
  byte, stops at the first \<open>=\<close>, skips every character outside the alphabet (where
  \<open>-\<close> and \<open>_\<close> stand for \<open>+\<close> and \<open>/\<close>), and decodes what is left; a
  final group of two or three characters gives one or two bytes.
\<close>

definition unbase64 :: "byte \<Rightarrow> nat option" where
  "unbase64 c =
     (if 0x41 \<le> c \<and> c \<le> 0x5A then Some (unat c - 0x41)
      else if 0x61 \<le> c \<and> c \<le> 0x7A then Some (unat c - 0x61 + 26)
      else if 0x30 \<le> c \<and> c \<le> 0x39 then Some (unat c - 0x30 + 52)
      else if c = 0x2B \<or> c = 0x2D then Some 62
      else if c = 0x2F \<or> c = 0x5F then Some 63
      else None)"

fun decodeSextets :: "nat list \<Rightarrow> bytes" where
  "decodeSextets (s1 # s2 # s3 # s4 # rest) =
     [of_nat (s1 * 4 + s2 div 16), of_nat (s2 mod 16 * 16 + s3 div 4),
      of_nat (s3 mod 4 * 64 + s4)] @ decodeSextets rest"
| "decodeSextets [s1, s2, s3] =
     [of_nat (s1 * 4 + s2 div 16), of_nat (s2 mod 16 * 16 + s3 div 4)]"
| "decodeSextets [s1, s2] = [of_nat (s1 * 4 + s2 div 16)]"
| "decodeSextets _ = []"

definition sextets :: "jsstring \<Rightarrow> nat list" where
  "sextets s = List.map_filter unbase64 (takeWhile (\<lambda>c. c \<noteq> 0x3D) (map ucast s))"

definition fromBase64 :: "jsstring \<Rightarrow> bytes" where
  "fromBase64 s = decodeSextets (sextets s)"

text \<open>Base64 as RFC 4648 defines it: groups of four characters of the standard
  alphabet, the last one padded with \<open>=\<close>.\<close>

definition stdChar :: "16 word \<Rightarrow> bool" where
  "stdChar c \<longleftrightarrow> c \<in> set b64alphabet"

fun wellFormedBase64 :: "jsstring \<Rightarrow> bool" where
  "wellFormedBase64 [] = True"
| "wellFormedBase64 [a, b, c, d] =
     (stdChar a \<and> stdChar b \<and> (c = 0x3D \<and> d = 0x3D \<or> stdChar c \<and> (d = 0x3D \<or> stdChar d)))"
| "wellFormedBase64 (a # b # c # d # rest) =
     (stdChar a \<and> stdChar b \<and> stdChar c \<and> stdChar d \<and> wellFormedBase64 rest)"
| "wellFormedBase64 _ = False"

section \<open>AES-256 in Galois/Counter Mode\<close>

text \<open>
  \<open>crypto.createCipheriv('aes-256-gcm', key, iv)\<close> and \<open>createDecipheriv\<close> are
  Node's binding of the cipher that the name designates: the AES block cipher with a
  256-bit key (FIPS 197) in GCM (NIST SP 800-38D), with no additional authenticated data.
  The AES state is a list of 16 bytes, column by column.
\<close>

definition sboxTable :: "byte list" where
  "sboxTable = [
       0x63, 0x7C, 0x77, 0x7B, 0xF2, 0x6B, 0x6F, 0xC5, 0x30, 0x01, 0x67, 0x2B, 0xFE, 0xD7, 0xAB, 0x76,
       0xCA, 0x82, 0xC9, 0x7D, 0xFA, 0x59, 0x47, 0xF0, 0xAD, 0xD4, 0xA2, 0xAF, 0x9C, 0xA4, 0x72, 0xC0,
       0xB7, 0xFD, 0x93, 0x26, 0x36, 0x3F, 0xF7, 0xCC, 0x34, 0xA5, 0xE5, 0xF1, 0x71, 0xD8, 0x31, 0x15,
       0x04, 0xC7, 0x23, 0xC3, 0x18, 0x96, 0x05, 0x9A, 0x07, 0x12, 0x80, 0xE2, 0xEB, 0x27, 0xB2, 0x75,
       0x09, 0x83, 0x2C, 0x1A, 0x1B, 0x6E, 0x5A, 0xA0, 0x52, 0x3B, 0xD6, 0xB3, 0x29, 0xE3, 0x2F, 0x84,
       0x53, 0xD1, 0x00, 0xED, 0x20, 0xFC, 0xB1, 0x5B, 0x6A, 0xCB, 0xBE, 0x39, 0x4A, 0x4C, 0x58, 0xCF,
       0xD0, 0xEF, 0xAA, 0xFB, 0x43, 0x4D, 0x33, 0x85, 0x45, 0xF9, 0x02, 0x7F, 0x50, 0x3C, 0x9F, 0xA8,
       0x51, 0xA3, 0x40, 0x8F, 0x92, 0x9D, 0x38, 0xF5, 0xBC, 0xB6, 0xDA, 0x21, 0x10, 0xFF, 0xF3, 0xD2,
       0xCD, 0x0C, 0x13, 0xEC, 0x5F, 0x97, 0x44, 0x17, 0xC4, 0xA7, 0x7E, 0x3D, 0x64, 0x5D, 0x19, 0x73,
       0x60, 0x81, 0x4F, 0xDC, 0x22, 0x2A, 0x90, 0x88, 0x46, 0xEE, 0xB8, 0x14, 0xDE, 0x5E, 0x0B, 0xDB,
       0xE0, 0x32, 0x3A, 0x0A, 0x49, 0x06, 0x24, 0x5C, 0xC2, 0xD3, 0xAC, 0x62, 0x91, 0x95, 0xE4, 0x79,
       0xE7, 0xC8, 0x37, 0x6D, 0x8D, 0xD5, 0x4E, 0xA9, 0x6C, 0x56, 0xF4, 0xEA, 0x65, 0x7A, 0xAE, 0x08,
       0xBA, 0x78, 0x25, 0x2E, 0x1C, 0xA6, 0xB4, 0xC6, 0xE8, 0xDD, 0x74, 0x1F, 0x4B, 0xBD, 0x8B, 0x8A,
       0x70, 0x3E, 0xB5, 0x66, 0x48, 0x03, 0xF6, 0x0E, 0x61, 0x35, 0x57, 0xB9, 0x86, 0xC1, 0x1D, 0x9E,
       0xE1, 0xF8, 0x98, 0x11, 0x69, 0xD9, 0x8E, 0x94, 0x9B, 0x1E, 0x87, 0xE9, 0xCE, 0x55, 0x28, 0xDF,
       0x8C, 0xA1, 0x89, 0x0D, 0xBF, 0xE6, 0x42, 0x68, 0x41, 0x99, 0x2D, 0x0F, 0xB0, 0x54, 0xBB, 0x16]"

definition sbox :: "byte \<Rightarrow> byte" where
  "sbox x = sboxTable ! unat x"

definition xtime :: "byte \<Rightarrow> byte" where
  "xtime a = (if bit a 7 then push_bit 1 a XOR 0x1B else push_bit 1 a)"

definition subBytes :: "bytes \<Rightarrow> bytes" where
  "subBytes st = map sbox st"

definition shiftRows :: "bytes \<Rightarrow> bytes" where
  "shiftRows st = map (\<lambda>i. st ! (i mod 4 + 4 * ((i div 4 + i mod 4) mod 4))) [0..<16]"

fun mixColumn :: "bytes \<Rightarrow> bytes" where
  "mixColumn [a0, a1, a2, a3] =
     [xtime a0 XOR (xtime a1 XOR a1) XOR a2 XOR a3,
      a0 XOR xtime a1 XOR (xtime a2 XOR a2) XOR a3,
      a0 XOR a1 XOR xtime a2 XOR (xtime a3 XOR a3),
      (xtime a0 XOR a0) XOR a1 XOR a2 XOR xtime a3]"
| "mixColumn col = col"

definition mixColumns :: "bytes \<Rightarrow> bytes" where
  "mixColumns st = concat (map mixColumn (chunks 4 st))"

definition rotWord :: "bytes \<Rightarrow> bytes" where
  "rotWord w = drop 1 w @ take 1 w"

definition rcon :: "nat \<Rightarrow> byte" where
  "rcon i = (xtime ^^ (i - 1)) 1"

definition nextWord :: "bytes list \<Rightarrow> nat \<Rightarrow> bytes" where
  "nextWord w i =
     (let temp = w ! (i - 1);
          temp' = (if i mod 8 = 0 then xorBytes (subBytes (rotWord temp)) [rcon (i div 8), 0, 0, 0]
                   else if i mod 8 = 4 then subBytes temp
                   else temp)
      in xorBytes (w ! (i - 8)) temp')"

definition keyExpansion :: "bytes \<Rightarrow> bytes list" where
  "keyExpansion key = fold (\<lambda>i w. w @ [nextWord w i]) [8..<60] (chunks 4 key)"

definition roundKey :: "bytes list \<Rightarrow> nat \<Rightarrow> bytes" where
  "roundKey w r = concat (take 4 (drop (4 * r) w))"

definition aesRound :: "bytes list \<Rightarrow> nat \<Rightarrow> bytes \<Rightarrow> bytes" where
  "aesRound w r st = xorBytes (mixColumns (shiftRows (subBytes st))) (roundKey w r)"

definition cipher :: "bytes \<Rightarrow> bytes \<Rightarrow> bytes" where
  "cipher key block =
     (let w = keyExpansion key;
          st = fold (aesRound w) [1..<14] (xorBytes block (roundKey w 0))
      in xorBytes (shiftRows (subBytes st)) (roundKey w 14))"

text \<open>A 128-bit block, most significant byte first.\<close>

definition bytesToBlock :: "bytes \<Rightarrow> 128 word" where
  "bytesToBlock bs = foldl (\<lambda>acc b. push_bit 8 acc OR ucast b) 0 bs"

definition blockToBytes :: "128 word \<Rightarrow> bytes" where
  "blockToBytes w = map (\<lambda>i. ucast (drop_bit (8 * (15 - i)) w)) [0..<16]"

definition aes256 :: "bytes \<Rightarrow> 128 word \<Rightarrow> 128 word" where
  "aes256 key b = bytesToBlock (cipher key (blockToBytes b))"

text \<open>Multiplication in GF(2^128) (SP 800-38D, Algorithm 1): bit 0 of the standard is
  the most significant bit of the word.\<close>

definition gfStep :: "128 word \<Rightarrow> nat \<Rightarrow> 128 word \<times> 128 word \<Rightarrow> 128 word \<times> 128 word" where
  "gfStep x i zv =
     (case zv of (z, v) \<Rightarrow>
        (if bit x (127 - i) then z XOR v else z,
         if bit v 0 then drop_bit 1 v XOR push_bit 120 0xE1 else drop_bit 1 v))"

definition gfMul :: "128 word \<Rightarrow> 128 word \<Rightarrow> 128 word" where
  "gfMul x y = fst (fold (gfStep x) [0..<128] (0, y))"

definition ghash :: "128 word \<Rightarrow> 128 word list \<Rightarrow> 128 word" where
  "ghash h blocks = fold (\<lambda>x y. gfMul (y XOR x) h) blocks 0"

definition pad16 :: "bytes \<Rightarrow> bytes" where
  "pad16 bs = bs @ replicate ((16 - length bs mod 16) mod 16) 0"

definition bitLength64 :: "bytes \<Rightarrow> 128 word" where
  "bitLength64 bs = take_bit 64 (of_nat (8 * length bs))"

definition inc32 :: "128 word \<Rightarrow> 128 word" where
  "inc32 w = (w AND NOT (mask 32)) OR ((w + 1) AND mask 32)"

definition preCounter :: "128 word \<Rightarrow> bytes \<Rightarrow> 128 word" where
  "preCounter h iv =
     (if length iv = 12 then bytesToBlock (iv @ [0, 0, 0, 1])
      else ghash h (map bytesToBlock (chunks 16 (pad16 iv)) @ [bitLength64 iv]))"

function gctr :: "bytes \<Rightarrow> 128 word \<Rightarrow> bytes \<Rightarrow> bytes" where
  "gctr key cb xs =
     (if xs = [] then []
      else xorBytes (take 16 xs) (blockToBytes (aes256 key cb)) @ gctr key (inc32 cb) (drop 16 xs))"
  by pat_completeness auto
termination
  by (relation "measure (\<lambda>(key, cb, xs). length xs)") auto

declare gctr.simps [simp del]

definition gcmTag :: "bytes \<Rightarrow> bytes \<Rightarrow> bytes \<Rightarrow> bytes" where
  "gcmTag key iv ct =
     (let h = aes256 key 0;
          s = ghash h (map bytesToBlock (chunks 16 (pad16 ct))
                        @ [push_bit 64 (bitLength64 []) OR bitLength64 ct])
      in blockToBytes (s XOR aes256 key (preCounter h iv)))"

definition gcmCrypt :: "bytes \<Rightarrow> bytes \<Rightarrow> bytes \<Rightarrow> bytes" where
  "gcmCrypt key iv xs = gctr key (inc32 (preCounter (aes256 key 0) iv)) xs"

section \<open>Data model\<close>

record client =
  name :: jsstring
  manager :: jsstring
  code :: jsstring

text \<open>
  The values \<open>JSON.parse\<close> returns, and \<open>undefined\<close> for a property that is not
  there. Numbers are IEEE doubles; they stay abstract. The properties of an object are an
  association list.
\<close>

typedecl jsnumber

datatype jsvalue =
    JUndefined
  | JNull
  | JBool bool
  | JNum jsnumber
  | JStr jsstring
  | JArr "jsvalue list"
  | JObj "(jsstring \<times> jsvalue) list"

text \<open>Every \<open>throw\<close> of the program and of the library calls it makes.\<close>

datatype error =
    TypeError
  | SyntaxError
  | ReadError
  | InvalidPayloadStructure
  | InvalidKeyLength
  | InvalidIV
  | InvalidTagLength
  | AuthenticationFailed
  | NotAnArray

text \<open>
  The libraries the program calls and that are not part of it, as parameters: the Unicode
  tables behind \<open>toLowerCase\<close>, the constructor of the Fuse index (an index is
  represented by its ranked search: all hits, best first), the conversions of numbers,
  \<open>JSON.parse\<close> (\<open>None\<close> when it throws), \<open>JSON.stringify\<close>, the UTF-8 codec, and
  \<open>Buffer.from\<close> on an array or an object (\<open>None\<close> when it throws).
\<close>

record host =
  unicodeLower :: "jsstring \<Rightarrow> jsstring"
  newFuse :: "client list \<Rightarrow> (jsstring \<Rightarrow> client list)"
  numberToString :: "jsnumber \<Rightarrow> jsstring"
  numberTruthy :: "jsnumber \<Rightarrow> bool"
  jsonParse :: "jsstring \<Rightarrow> jsvalue option"
  jsonStringify :: "jsvalue \<Rightarrow> jsstring"
  utf8Decode :: "bytes \<Rightarrow> jsstring"
  bufferFromObject :: "jsvalue \<Rightarrow> bytes option"

definition toLowerCase :: "host \<Rightarrow> jsstring \<Rightarrow> jsstring" where
  "toLowerCase H s = (if list_all simpleChar s then map lowerChar s else unicodeLower H s)"

definition bindE :: "error + 'a \<Rightarrow> ('a \<Rightarrow> error + 'b) \<Rightarrow> error + 'b" where
  "bindE r f = (case r of Inl e \<Rightarrow> Inl e | Inr v \<Rightarrow> f v)"

fun mapE :: "('a \<Rightarrow> error + 'b) \<Rightarrow> 'a list \<Rightarrow> error + 'b list" where
  "mapE f [] = Inr []"
| "mapE f (x # xs) = bindE (f x) (\<lambda>y. bindE (mapE f xs) (\<lambda>ys. Inr (y # ys)))"

text \<open>
  Reading a property that no built-in prototype defines (\<open>name\<close>, \<open>manager\<close>,
  \<open>code\<close>, \<open>iv\<close>, \<open>data\<close>, \<open>tag\<close>): a TypeError on \<open>null\<close> and
  \<open>undefined\<close>, the own property of an object, \<open>undefined\<close> otherwise.
\<close>

definition getProp :: "jsvalue \<Rightarrow> jsstring \<Rightarrow> error + jsvalue" where
  "getProp v k =
     (case v of
        JUndefined \<Rightarrow> Inl TypeError
      | JNull \<Rightarrow> Inl TypeError
      | JObj props \<Rightarrow> Inr (case map_of props k of None \<Rightarrow> JUndefined | Some x \<Rightarrow> x)
      | _ \<Rightarrow> Inr JUndefined)"

text \<open>\<open>!v\<close> is \<open>\<not> truthy v\<close>.\<close>

definition truthy :: "host \<Rightarrow> jsvalue \<Rightarrow> bool" where
  "truthy H v =
     (case v of
        JUndefined \<Rightarrow> False
      | JNull \<Rightarrow> False
      | JBool b \<Rightarrow> b
      | JNum n \<Rightarrow> numberTruthy H n
      | JStr s \<Rightarrow> s \<noteq> []
      | _ \<Rightarrow> True)"

text \<open>
  \<open>String(v)\<close>. An array joins its elements with commas, \<open>null\<close> and \<open>undefined\<close>
  elements giving the empty string. A parsed object inherits \<open>Object.prototype.toString\<close>
  unless it has an own property \<open>toString\<close>, which is never callable: then the
  conversion throws.
\<close>

fun toStr :: "host \<Rightarrow> jsvalue \<Rightarrow> error + jsstring"
  and joinStr :: "host \<Rightarrow> jsvalue list \<Rightarrow> error + jsstring" where
  "toStr H JUndefined = Inr (str ''undefined'')"
| "toStr H JNull = Inr (str ''null'')"
| "toStr H (JBool b) = Inr (if b then str ''true'' else str ''false'')"
| "toStr H (JNum n) = Inr (numberToString H n)"
| "toStr H (JStr s) = Inr s"
| "toStr H (JArr xs) = joinStr H xs"
| "toStr H (JObj props) =
     (case map_of props (str ''toString'') of
        None \<Rightarrow> Inr (str ''[object Object]'')
      | Some f \<Rightarrow> Inl TypeError)"
| "joinStr H [] = Inr []"
| "joinStr H (x # xs) =
     bindE (case x of JUndefined \<Rightarrow> Inr [] | JNull \<Rightarrow> Inr [] | _ \<Rightarrow> toStr H x)
       (\<lambda>a. case xs of [] \<Rightarrow> Inr a
             | _ \<Rightarrow> bindE (joinStr H xs) (\<lambda>b. Inr (a @ str '','' @ b)))"

definition normalizeCell :: "host \<Rightarrow> jsvalue \<Rightarrow> error + jsstring" where
  "normalizeCell H v =
     (case v of
        JUndefined \<Rightarrow> Inr []
      | JNull \<Rightarrow> Inr []
      | _ \<Rightarrow> bindE (toStr H v) (\<lambda>s. Inr (trim s)))"

section \<open>Cipher store\<close>

text \<open>
  \<open>createCipheriv\<close> and \<open>createDecipheriv\<close> throw on a key that is not 32 bytes long,
  on an empty nonce and on a nonce of more than 128 bytes; a GCM nonce of any length from
  1 to 128 bytes is accepted.
\<close>

definition createCipheriv :: "bytes \<Rightarrow> bytes \<Rightarrow> error + unit" where
  "createCipheriv key iv =
     (if length key \<noteq> 32 then Inl InvalidKeyLength
      else if iv = [] \<or> length iv > 128 then Inl InvalidIV
      else Inr ())"

text \<open>
  The exporter's \<open>encryptData\<close>. The nonce is the result of \<open>crypto.randomBytes(12)\<close>,
  an input here. The returned object has the three base64 strings.
\<close>

definition encryptData :: "bytes \<Rightarrow> bytes \<Rightarrow> bytes \<Rightarrow> error + jsvalue" where
  "encryptData SECRET_BUFFER iv plaintextBuffer =
     bindE (createCipheriv SECRET_BUFFER iv) (\<lambda>_.
       let encrypted = gcmCrypt SECRET_BUFFER iv plaintextBuffer;
           authTag = gcmTag SECRET_BUFFER iv encrypted
       in Inr (JObj [(str ''iv'', JStr (toBase64 iv)),
                     (str ''data'', JStr (toBase64 encrypted)),
                     (str ''tag'', JStr (toBase64 authTag))]))"

text \<open>\<open>Buffer.from(v, 'base64')\<close>: a string is decoded; a number or a boolean throws.\<close>

definition bufferFrom :: "host \<Rightarrow> jsvalue \<Rightarrow> error + bytes" where
  "bufferFrom H v =
     (case v of
        JStr s \<Rightarrow> Inr (fromBase64 s)
      | JArr xs \<Rightarrow> (case bufferFromObject H v of None \<Rightarrow> Inl TypeError | Some b \<Rightarrow> Inr b)
      | JObj ps \<Rightarrow> (case bufferFromObject H v of None \<Rightarrow> Inl TypeError | Some b \<Rightarrow> Inr b)
      | _ \<Rightarrow> Inl TypeError)"

text \<open>
  \<open>decipher.setAuthTag\<close> throws unless the tag has one of the lengths GCM allows;
  \<open>decipher.final\<close> throws unless the tag equals the leading bytes of the tag computed
  from the key, the nonce and the ciphertext. \<open>Buffer.concat([update, final])\<close> has no
  value when \<open>final\<close> throws.
\<close>

definition setAuthTag :: "bytes \<Rightarrow> error + unit" where
  "setAuthTag t = (if length t \<in> {4, 8, 12, 13, 14, 15, 16} then Inr () else Inl InvalidTagLength)"

definition decipherFinal :: "bytes \<Rightarrow> bytes \<Rightarrow> bytes \<Rightarrow> bytes \<Rightarrow> error + bytes" where
  "decipherFinal key iv t ct =
     (if take (length t) (gcmTag key iv ct) = t then Inr (gcmCrypt key iv ct)
      else Inl AuthenticationFailed)"

text \<open>Lines 108 to 124 of \<open>decryptClientsPayload\<close>: from the parsed payload to the
  decrypted buffer.\<close>

definition decryptPayload :: "host \<Rightarrow> bytes \<Rightarrow> jsvalue \<Rightarrow> error + bytes" where
  "decryptPayload H secretBuffer payload =
     bindE (getProp payload (str ''iv'')) (\<lambda>iv.
     bindE (getProp payload (str ''data'')) (\<lambda>data.
     bindE (getProp payload (str ''tag'')) (\<lambda>tag.
       if \<not> truthy H iv \<or> \<not> truthy H data \<or> \<not> truthy H tag then Inl InvalidPayloadStructure
       else
         bindE (bufferFrom H iv) (\<lambda>ivBytes.
         bindE (createCipheriv secretBuffer ivBytes) (\<lambda>_.
         bindE (bufferFrom H tag) (\<lambda>tagBytes.
         bindE (setAuthTag tagBytes) (\<lambda>_.
         bindE (bufferFrom H data) (\<lambda>dataBytes.
           decipherFinal secretBuffer ivBytes tagBytes dataBytes)))))))) "

text \<open>Flipping bit \<open>j\<close> of byte \<open>n\<close> of a byte string.\<close>

definition flipBit :: "bytes \<Rightarrow> nat \<Rightarrow> nat \<Rightarrow> bytes" where
  "flipBit bs n j = bs[n := bs ! n XOR push_bit j 1]"

section \<open>Directory index\<close>

datatype fileState = Absent | Unreadable | Content jsstring

datatype effect =
    SendMessage jsstring jsstring
  | ConsoleLog
  | ConsoleWarn
  | ConsoleError

definition parseJson :: "host \<Rightarrow> jsstring \<Rightarrow> error + jsvalue" where
  "parseJson H s = (case jsonParse H s of None \<Rightarrow> Inl SyntaxError | Some v \<Rightarrow> Inr v)"

text \<open>The function mapped over the parsed array (lines 132 to 135).\<close>

definition normalizeEntry :: "host \<Rightarrow> jsvalue \<Rightarrow> error + client" where
  "normalizeEntry H entry =
     bindE (bindE (getProp entry (str ''name'')) (normalizeCell H)) (\<lambda>n.
     bindE (bindE (getProp entry (str ''manager'')) (normalizeCell H)) (\<lambda>m.
     bindE (bindE (getProp entry (str ''code'')) (normalizeCell H)) (\<lambda>c.
       Inr \<lparr>name = n, manager = m, code = c\<rparr>)))"

text \<open>Lines 128 to 136: the parsed plaintext to the client list.\<close>

definition normalizeClients :: "host \<Rightarrow> jsvalue \<Rightarrow> error + client list" where
  "normalizeClients H parsed =
     (case parsed of
        JArr entries \<Rightarrow>
          bindE (mapE (normalizeEntry H) entries) (\<lambda>cs. Inr (filter (\<lambda>e. name e \<noteq> []) cs))
      | _ \<Rightarrow> Inl NotAnArray)"

text \<open>The body of the \<open>try\<close> once the file is known to exist (lines 106 to 136).\<close>

definition readClients :: "host \<Rightarrow> bytes \<Rightarrow> fileState \<Rightarrow> error + client list" where
  "readClients H secretBuffer f =
     (case f of
        Content raw \<Rightarrow>
          bindE (parseJson H raw) (\<lambda>payload.
          bindE (decryptPayload H secretBuffer payload) (\<lambda>decrypted.
          bindE (parseJson H (utf8Decode H decrypted)) (normalizeClients H)))
      | _ \<Rightarrow> Inl ReadError)"

definition decryptClientsPayload :: "host \<Rightarrow> bytes \<Rightarrow> fileState \<Rightarrow> client list \<times> effect list" where
  "decryptClientsPayload H secretBuffer f =
     (case f of
        Absent \<Rightarrow> ([], [ConsoleWarn])
      | _ \<Rightarrow> (case readClients H secretBuffer f of
                Inl e \<Rightarrow> ([], [ConsoleError])
              | Inr cs \<Rightarrow> (cs, [])))"

text \<open>
  The normalisation as the specification words it. A raw record is a parsed value other
  than \<open>null\<close> whose \<open>name\<close>, \<open>manager\<close> and \<open>code\<close> can be turned into text
  (a string, a number, a boolean, or nothing at all). Each field is trimmed, a missing or
  \<open>null\<close> field is the empty string.
\<close>

definition rawField :: "jsvalue \<Rightarrow> jsstring \<Rightarrow> jsvalue" where
  "rawField e k = (case getProp e k of Inr v \<Rightarrow> v | Inl err \<Rightarrow> JUndefined)"





text \<open>
  The failed load as the specification words it: the file is absent (or cannot be read),
  or decryption fails, or parsing fails, of the file or of the plaintext, or the plaintext
  is not a collection of records.
\<close>

definition loadFails :: "host \<Rightarrow> bytes \<Rightarrow> fileState \<Rightarrow> bool" where
  "loadFails H key f =
     (case f of
        Absent \<Rightarrow> True
      | Unreadable \<Rightarrow> True
      | Content raw \<Rightarrow>
          (case jsonParse H raw of
             None \<Rightarrow> True
           | Some payload \<Rightarrow>
               (case decryptPayload H key payload of
                  Inl err \<Rightarrow> True
                | Inr plain \<Rightarrow>
                    (case jsonParse H (utf8Decode H plain) of
                       None \<Rightarrow> True
                     | Some parsed \<Rightarrow>
                         (case normalizeClients H parsed of Inl err \<Rightarrow> True | Inr cs \<Rightarrow> False)))))"

text \<open>The module's mutable variables \<open>clients\<close>, \<open>fuse\<close> and \<open>authorizedUsers\<close>.
  A JavaScript \<open>Set\<close> keeps insertion order, so the set is a list without repetition.\<close>

record state =
  clients :: "client list"
  fuse :: "(jsstring \<Rightarrow> client list) option"
  authorizedUsers :: "jsstring list"

text \<open>The two files of the program.\<close>

record disk =
  dataFile :: fileState
  authFile :: fileState

definition loadClients :: "host \<Rightarrow> bytes \<Rightarrow> disk \<Rightarrow> state \<Rightarrow> state \<times> effect list" where
  "loadClients H secretBuffer d s =
     (case decryptClientsPayload H secretBuffer (dataFile d) of (decryptedClients, out) \<Rightarrow>
        if length decryptedClients > 0
        then (s\<lparr>clients := decryptedClients, fuse := Some (newFuse H decryptedClients)\<rparr>,
              out @ [ConsoleLog])
        else (s\<lparr>clients := decryptedClients, fuse := None\<rparr>, out @ [ConsoleWarn]))"

section \<open>Search\<close>

definition fallbackSearch :: "host \<Rightarrow> state \<Rightarrow> jsstring \<Rightarrow> client list" where
  "fallbackSearch H s query =
     (let loweredQuery = toLowerCase H query in
      take 5 (filter (\<lambda>c. includesStr (toLowerCase H (name c)) loweredQuery
                         \<or> includesStr (toLowerCase H (manager c)) loweredQuery
                         \<or> includesStr (toLowerCase H (code c)) loweredQuery) (clients s)))"

text \<open>\<open>fuse.search(query, { limit: 5 })\<close> keeps the first five ranked hits.\<close>

definition findMatches :: "host \<Rightarrow> state \<Rightarrow> jsstring \<Rightarrow> client list" where
  "findMatches H s query =
     (if trim query = [] then []
      else case fuse s of
        None \<Rightarrow> fallbackSearch H s query
      | Some idx \<Rightarrow>
          (let fuseResults = take 5 (idx query) in
           if length fuseResults > 0 then fuseResults else fallbackSearch H s query))"

text \<open>
  The fallback as the specification words it: a case-insensitive containment check across
  \<open>name\<close>, \<open>manager\<close> and \<open>code\<close>, returning up to \<open>limit\<close> matches in
  the order of the collection.
\<close>

definition containsIgnoringCase :: "host \<Rightarrow> jsstring \<Rightarrow> jsstring \<Rightarrow> bool" where
  "containsIgnoringCase H field query = includesStr (toLowerCase H field) (toLowerCase H query)"

definition specMatches :: "host \<Rightarrow> jsstring \<Rightarrow> client \<Rightarrow> bool" where
  "specMatches H query c \<longleftrightarrow>
     containsIgnoringCase H (name c) query \<or> containsIgnoringCase H (manager c) query
     \<or> containsIgnoringCase H (code c) query"

definition specFallback :: "host \<Rightarrow> client list \<Rightarrow> jsstring \<Rightarrow> nat \<Rightarrow> client list" where
  "specFallback H cs query limit = take limit (filter (specMatches H query) cs)"

text \<open>
  Lower-casing works code unit by code unit on a string, each unit replaced by the text
  that \<open>g\<close> gives for it: what the Unicode tables do wherever no mapping depends on what
  comes before or after the unit.
\<close>

definition lowersByUnit :: "host \<Rightarrow> (16 word \<Rightarrow> jsstring) \<Rightarrow> jsstring \<Rightarrow> bool" where
  "lowersByUnit H g t \<longleftrightarrow> toLowerCase H t = concat (map g t)"

section \<open>Replies\<close>

definition msgNoMatches :: jsstring where
  "msgNoMatches = [1057, 1086, 1074, 1087, 1072, 1076, 1077, 1085, 1080, 1081, 32, 1085, 1077,
     32, 1085, 1072, 1081, 1076, 1077, 1085, 1086, 46, 32, 1055, 1086, 1087, 1088, 1086, 1073,
     1091, 1081, 1090, 1077, 32, 1091, 1090, 1086, 1095, 1085, 1080, 1090, 1100, 32, 1079, 1072,
     1087, 1088, 1086, 1089, 46]"

definition msgHeader :: jsstring where
  "msgHeader = [1053, 1072, 1096, 1105, 1083, 32, 1089, 1083, 1077, 1076, 1091, 1102, 1097,
     1080, 1077, 32, 1089, 1086, 1074, 1087, 1072, 1076, 1077, 1085, 1080, 1103, 58]"

definition lblClient :: jsstring where
  "lblClient = [1050, 1083, 1080, 1077, 1085, 1090, 58, 32]"

definition lblManager :: jsstring where
  "lblManager = [1052, 1077, 1085, 1077, 1076, 1078, 1077, 1088, 58, 32]"

definition lblCode :: jsstring where
  "lblCode = [1050, 1086, 1076, 58, 32]"

definition msgAccessGranted :: jsstring where
  "msgAccessGranted = [1044, 1086, 1089, 1090, 1091, 1087, 32, 1086, 1090, 1082, 1088, 1099,
     1090, 33, 32, 1054, 1090, 1087, 1088, 1072, 1074, 1100, 1090, 1077, 32, 1085, 1072, 1079,
     1074, 1072, 1085, 1080, 1077, 32, 1082, 1083, 1080, 1077, 1085, 1090, 1072, 44, 32, 1084,
     1077, 1085, 1077, 1076, 1078, 1077, 1088, 1072, 32, 1080, 1083, 1080, 32, 1082, 1086, 1076,
     44, 32, 1095, 1090, 1086, 1073, 1099, 32, 1085, 1072, 1081, 1090, 1080, 32, 1089, 1086,
     1074, 1087, 1072, 1076, 1077, 1085, 1080, 1103, 46]"

definition msgAccessPrompt :: jsstring where
  "msgAccessPrompt = [1044, 1083, 1103, 32, 1076, 1086, 1089, 1090, 1091, 1087, 1072, 32, 1082,
     32, 1073, 1086, 1090, 1091, 32, 1086, 1090, 1087, 1088, 1072, 1074, 1100, 1090, 1077, 32,
     1082, 1086, 1076, 32, 1076, 1086, 1089, 1090, 1091, 1087, 1072, 46, 32, 1055, 1086, 1089,
     1083, 1077, 32, 1087, 1086, 1076, 1090, 1074, 1077, 1088, 1078, 1076, 1077, 1085, 1080,
     1103, 32, 1074, 1099, 32, 1089, 1084, 1086, 1078, 1077, 1090, 1077, 32, 1080, 1089, 1082,
     1072, 1090, 1100, 32, 1082, 1083, 1080, 1077, 1085, 1090, 1086, 1074, 46]"

definition msgSendQuery :: jsstring where
  "msgSendQuery = [1055, 1086, 1078, 1072, 1083, 1091, 1081, 1089, 1090, 1072, 44, 32, 1086,
     1090, 1087, 1088, 1072, 1074, 1100, 1090, 1077, 32, 1079, 1072, 1087, 1088, 1086, 1089, 32,
     1076, 1083, 1103, 32, 1087, 1086, 1080, 1089, 1082, 1072, 46]"

definition msgWelcomeBack :: jsstring where
  "msgWelcomeBack = [1056, 1072, 1076, 1099, 32, 1089, 1085, 1086, 1074, 1072, 32, 1074, 1080,
     1076, 1077, 1090, 1100, 33, 32, 1054, 1090, 1087, 1088, 1072, 1074, 1100, 1090, 1077, 32,
     1079, 1072, 1087, 1088, 1086, 1089, 32, 1089, 32, 1085, 1072, 1079, 1074, 1072, 1085, 1080,
     1077, 1084, 32, 1082, 1083, 1080, 1077, 1085, 1090, 1072, 44, 32, 1072, 32, 1103, 32, 1085,
     1072, 1081, 1076, 1091, 32, 1073, 1083, 1080, 1078, 1072, 1081, 1096, 1080, 1077, 32, 1089,
     1086, 1074, 1087, 1072, 1076, 1077, 1085, 1080, 1103, 46]"

definition msgHello :: jsstring where
  "msgHello = [1055, 1088, 1080, 1074, 1077, 1090, 33, 32, 1063, 1090, 1086, 1073, 1099, 32,
     1087, 1086, 1083, 1091, 1095, 1080, 1090, 1100, 32, 1076, 1086, 1089, 1090, 1091, 1087, 32,
     1082, 32, 1087, 1086, 1080, 1089, 1082, 1091, 44, 32, 1086, 1090, 1087, 1088, 1072, 1074,
     1100, 1090, 1077, 32, 1082, 1086, 1076, 32, 1076, 1086, 1089, 1090, 1091, 1087, 1072, 46,
     32, 1055, 1086, 1089, 1083, 1077, 32, 1101, 1090, 1086, 1075, 1086, 32, 1089, 1084, 1086,
     1078, 1077, 1090, 1077, 32, 1080, 1089, 1082, 1072, 1090, 1100, 32, 1082, 1083, 1080, 1077,
     1085, 1090, 1086, 1074, 46]"

definition msgReloaded :: jsstring where
  "msgReloaded = [1055, 1077, 1088, 1077, 1079, 1072, 1075, 1088, 1091, 1079, 1080, 1083, 32,
     1076, 1072, 1085, 1085, 1099, 1077, 32, 1082, 1083, 1080, 1077, 1085, 1090, 1086, 1074, 46]"

definition msgUnknownCommand :: jsstring where
  "msgUnknownCommand = [1053, 1077, 1080, 1079, 1074, 1077, 1089, 1090, 1085, 1072, 1103, 32,
     1082, 1086, 1084, 1072, 1085, 1076, 1072, 46, 32, 1055, 1088, 1086, 1089, 1090, 1086, 32,
     1086, 1090, 1087, 1088, 1072, 1074, 1100, 1090, 1077, 32, 1079, 1072, 1087, 1088, 1086,
     1089, 32, 1076, 1083, 1103, 32, 1087, 1086, 1080, 1089, 1082, 1072, 32, 1082, 1083, 1080,
     1077, 1085, 1090, 1072, 46]"

fun decimal :: "nat \<Rightarrow> jsstring" where
  "decimal n = (if n < 10 then [of_nat (48 + n)] else decimal (n div 10) @ [of_nat (48 + n mod 10)])"

declare decimal.simps [simp del]

definition orDash :: "jsstring \<Rightarrow> jsstring" where
  "orDash s = (if s = [] then [0x2014] else s)"

definition formatLine :: "nat \<Rightarrow> client \<Rightarrow> jsstring" where
  "formatLine index item =
     decimal (index + 1) @ str ''. '' @ lblClient @ orDash (name item)
       @ [0xA, 0x20, 0x20, 0x20] @ lblManager @ orDash (manager item)
       @ [0xA, 0x20, 0x20, 0x20] @ lblCode @ orDash (code item)"

fun joinWith :: "jsstring \<Rightarrow> jsstring list \<Rightarrow> jsstring" where
  "joinWith sep [] = []"
| "joinWith sep [x] = x"
| "joinWith sep (x # xs) = x @ sep @ joinWith sep xs"

definition formatResult :: "client list \<Rightarrow> jsstring" where
  "formatResult resultItems =
     (if length resultItems = 0 then msgNoMatches
      else joinWith [0xA, 0xA]
             (msgHeader # map (\<lambda>(index, item). formatLine index item)
                             (zip [0..<length resultItems] resultItems)))"

section \<open>Access registry and session gate\<close>

definition ACCESS_CODE :: jsstring where
  "ACCESS_CODE = str ''22170313''"

text \<open>
  \<open>addAuthorizedUser\<close> tests and extends the set before its first \<open>await\<close>; the file
  is then rewritten, and a failed write is logged and swallowed. \<open>writeOk\<close> tells whether
  the write succeeds.
\<close>

definition addAuthorizedUser ::
  "host \<Rightarrow> bool \<Rightarrow> jsstring \<Rightarrow> state \<times> disk \<Rightarrow> (state \<times> disk) \<times> effect list" where
  "addAuthorizedUser H writeOk userId sd =
     (case sd of (s, d) \<Rightarrow>
        if userId \<in> set (authorizedUsers s) then ((s, d), [])
        else
          let s' = s\<lparr>authorizedUsers := authorizedUsers s @ [userId]\<rparr> in
          if writeOk
          then ((s', d\<lparr>authFile := Content (jsonStringify H (JArr (map JStr (authorizedUsers s'))))\<rparr>), [])
          else ((s', d), [ConsoleError]))"

text \<open>The promise of \<open>addAuthorizedUser\<close> always resolves, so the confirmation of the
  \<open>then\<close> branch is what is sent.\<close>

definition handleUnauthorizedMessage ::
  "host \<Rightarrow> bool \<Rightarrow> jsstring \<Rightarrow> jsstring \<Rightarrow> state \<times> disk \<Rightarrow> (state \<times> disk) \<times> effect list" where
  "handleUnauthorizedMessage H writeOk chatId txt sd =
     (if trim txt = ACCESS_CODE
      then (case addAuthorizedUser H writeOk chatId sd of (sd', out) \<Rightarrow>
              (sd', out @ [SendMessage chatId msgAccessGranted]))
      else (sd, [SendMessage chatId msgAccessPrompt]))"

definition handleSearchMessage :: "host \<Rightarrow> state \<Rightarrow> jsstring \<Rightarrow> jsstring \<Rightarrow> effect list" where
  "handleSearchMessage H s chatId query =
     (if trim query = [] then [SendMessage chatId msgSendQuery]
      else [SendMessage chatId (formatResult (findMatches H s query))])"

text \<open>An inbound update: the chat identity after \<open>toString\<close>, and \<open>msg.text\<close>,
  which is missing on a message that is not text.\<close>

record message =
  chatId :: jsstring
  msgText :: "jsstring option"

text \<open>The listener of \<open>bot.on('message')\<close>.\<close>

definition onMessage ::
  "host \<Rightarrow> bytes \<Rightarrow> bool \<Rightarrow> message \<Rightarrow> state \<times> disk \<Rightarrow> (state \<times> disk) \<times> effect list" where
  "onMessage H secretBuffer writeOk msg sd =
     (case sd of (s, d) \<Rightarrow>
        let txt = (case msgText msg of None \<Rightarrow> [] | Some t \<Rightarrow> t) in
        if txt = [] then (sd, [])
        else if chatId msg \<notin> set (authorizedUsers s)
        then handleUnauthorizedMessage H writeOk (chatId msg) txt sd
        else if startsWith txt (str ''/'')
        then (if txt = str ''/reload''
              then (case loadClients H secretBuffer d s of (s', out) \<Rightarrow>
                      ((s', d), out @ [SendMessage (chatId msg) msgReloaded]))
              else (sd, [SendMessage (chatId msg) msgUnknownCommand]))
        else (sd, handleSearchMessage H s (chatId msg) txt))"

text \<open>The listener of \<open>bot.onText(/\/start/)\<close>.\<close>

definition onStart :: "message \<Rightarrow> state \<Rightarrow> effect list" where
  "onStart msg s =
     (if chatId msg \<in> set (authorizedUsers s) then [SendMessage (chatId msg) msgWelcomeBack]
      else [SendMessage (chatId msg) msgHello])"

text \<open>
  One update, as the bot library dispatches it: the \<open>message\<close> listener first, then,
  when the message has a text in which the pattern \<open>/start\<close> occurs, the \<open>onText\<close>
  listener.
\<close>

definition processUpdate ::
  "host \<Rightarrow> bytes \<Rightarrow> bool \<Rightarrow> message \<Rightarrow> state \<times> disk \<Rightarrow> (state \<times> disk) \<times> effect list" where
  "processUpdate H secretBuffer writeOk msg sd =
     (case onMessage H secretBuffer writeOk msg sd of (sd', out) \<Rightarrow>
        (sd', out @ (case msgText msg of
                       None \<Rightarrow> []
                     | Some t \<Rightarrow> if includesStr t (str ''/start'') then onStart msg (fst sd') else [])))"

text \<open>The debounced callback of the file watcher.\<close>

definition onDataChange :: "host \<Rightarrow> bytes \<Rightarrow> state \<times> disk \<Rightarrow> (state \<times> disk) \<times> effect list" where
  "onDataChange H secretBuffer sd =
     (case sd of (s, d) \<Rightarrow>
        case loadClients H secretBuffer d s of (s', out) \<Rightarrow> ((s', d), ConsoleLog # out))"

text \<open>
  The events of a run after startup: an update from the chat transport (with the outcome
  of the registry write it may cause), a change of the data file that the watcher reports,
  and any change the environment makes to the two files.
\<close>

datatype event = Update bool message | DataChanged | FilesChanged disk

fun step :: "host \<Rightarrow> bytes \<Rightarrow> event \<Rightarrow> state \<times> disk \<Rightarrow> (state \<times> disk) \<times> effect list" where
  "step H secretBuffer (Update writeOk msg) sd = processUpdate H secretBuffer writeOk msg sd"
| "step H secretBuffer DataChanged sd = onDataChange H secretBuffer sd"
| "step H secretBuffer (FilesChanged d') sd = ((fst sd, d'), [])"

fun run :: "host \<Rightarrow> bytes \<Rightarrow> event list \<Rightarrow> state \<times> disk \<Rightarrow> (state \<times> disk) \<times> effect list" where
  "run H secretBuffer [] sd = (sd, [])"
| "run H secretBuffer (e # es) sd =
     (case step H secretBuffer e sd of (sd', out) \<Rightarrow>
        case run H secretBuffer es sd' of (sd'', out') \<Rightarrow> (sd'', out @ out'))"

section \<open>Configuration\<close>



section \<open>An example host\<close>

text \<open>
  A host to run the definitions on examples: text outside ASCII and Cyrillic is left as
  it is by lower-casing, the fuzzy index finds nothing, and no text parses as JSON.
\<close>

definition exampleHost :: host where
  "exampleHost =
     \<lparr>unicodeLower = (\<lambda>s. s), newFuse = (\<lambda>cs q. []), numberToString = (\<lambda>n. str ''0''),
      numberTruthy = (\<lambda>n. True), jsonParse = (\<lambda>s. None), jsonStringify = (\<lambda>v. []),
      utf8Decode = (\<lambda>b. map ucast b), bufferFromObject = (\<lambda>v. None)\<rparr>"

text \<open>The directory of the specification's scenario, loaded, with one authorized chat.\<close>

definition acme :: client where
  "acme = \<lparr>name = str ''Acme Corp'', manager = str ''Ivan'', code = str ''A1''\<rparr>"

definition exampleState :: state where
  "exampleState =
     \<lparr>clients = [acme], fuse = Some (newFuse exampleHost [acme]), authorizedUsers = [str ''42'']\<rparr>"

definition exampleDisk :: disk where
  "exampleDisk = \<lparr>dataFile = Absent, authFile = Absent\<rparr>"

definition exampleKey :: bytes where
  "exampleKey = replicate 32 0"

text \<open>A payload as the exporter writes it: the plaintext \<open>[]\<close> under the example key
  and the nonce of twelve zero bytes.\<close>

definition exampleIv :: bytes where
  "exampleIv = replicate 12 0"

definition examplePlain :: bytes where
  "examplePlain = [0x5B, 0x5D]"

definition exampleCipher :: bytes where
  "exampleCipher = gcmCrypt exampleKey exampleIv examplePlain"

definition exampleTag :: bytes where
  "exampleTag = gcmTag exampleKey exampleIv exampleCipher"

text \<open>
  Lower-casing of Greek capital letters as the Unicode standard has it (SpecialCasing,
  condition Final_Sigma), on text made of the letters U+0391 to U+03A9: a capital sigma
  that comes after a letter and has no letter after it becomes the final sigma U+03C2,
  and every other capital letter moves up by 0x20. The flag tells whether a letter comes
  before.
\<close>

definition greekCapital :: "16 word \<Rightarrow> bool" where
  "greekCapital c \<longleftrightarrow> 0x391 \<le> c \<and> c \<le> 0x3A9 \<and> c \<noteq> 0x3A2"

fun greekLower :: "bool \<Rightarrow> jsstring \<Rightarrow> jsstring" where
  "greekLower after [] = []"
| "greekLower after (c # cs) =
     (if c = 0x3A3 \<and> after \<and> (case cs of [] \<Rightarrow> True | d # ds \<Rightarrow> \<not> greekCapital d) then 0x3C2
      else if greekCapital c then c + 0x20
      else c) # greekLower (greekCapital c) cs"

text \<open>
  A host with that lower-casing, the index of which returns the records of which a
  lower-cased field contains the lower-cased query; and a directory of one client, whose
  name is a capital alpha followed by a capital sigma, with the index built on it.
\<close>

definition greekHost :: host where
  "greekHost =
     exampleHost\<lparr>unicodeLower := greekLower False,
       newFuse := (\<lambda>cs q. filter (specMatches (exampleHost\<lparr>unicodeLower := greekLower False\<rparr>) q) cs)\<rparr>"

definition alphaSigma :: client where
  "alphaSigma = \<lparr>name = [0x391, 0x3A3], manager = [], code = []\<rparr>"

definition sigmaQuery :: jsstring where
  "sigmaQuery = [0x3A3]"

definition sigmaState :: state where
  "sigmaState =
     \<lparr>clients = [alphaSigma], fuse = Some (newFuse greekHost [alphaSigma]), authorizedUsers = []\<rparr>"

text \<open>The same plaintext under a nonce of sixteen bytes.\<close>

definition exampleIv16 :: bytes where
  "exampleIv16 = replicate 16 0"

definition exampleCipher16 :: bytes where
  "exampleCipher16 = gcmCrypt exampleKey exampleIv16 examplePlain"

definition exampleTag16 :: bytes where
  "exampleTag16 = gcmTag exampleKey exampleIv16 exampleCipher16"

section \<open>Theorems\<close>

subsection \<open>Base64 and the cipher\<close>

lemma b64_table:
  "list_all (\<lambda>i. unbase64 (ucast (b64char i)) = Some i \<and> (ucast (b64char i) :: byte) \<noteq> 0x3D) [0..<64]"
  by (simp add: upt_rec b64char_def b64alphabet_def str_def unbase64_def)

lemma b64char_legal:
  assumes "i < 64"
  shows "unbase64 (ucast (b64char i)) = Some i" and "(ucast (b64char i) :: byte) \<noteq> 0x3D"
  using b64_table assms by (auto simp: list_all_iff)

lemma sextets_legal: "i < 64 \<Longrightarrow> sextets (b64char i # s) = i # sextets s"
  by (simp add: sextets_def b64char_legal List.map_filter_simps)

lemma sextets_junk: "\<forall>c\<in>set x. unbase64 (ucast c) = None \<Longrightarrow> sextets x = []"
  by (induction x) (auto simp: sextets_def List.map_filter_simps)

lemma sextets_pad: "sextets (0x3D # s) = []"
  by (simp add: sextets_def List.map_filter_simps)

lemma unat_byte_lt: "unat (a :: byte) < 256"
  using unsigned_less [of a, where 'a = nat] by simp

lemma div_mult_add: "k < n \<Longrightarrow> (x * n + k) div n = (x :: nat)"
  by simp

lemma mod_mult_add: "k < n \<Longrightarrow> (x * n + k) mod n = (k :: nat)"
  by simp

lemma sextet_arith:
  fixes a b c :: nat
  assumes "b < 256" "c < 256"
  shows "a div 4 * 4 + (a mod 4 * 16 + b div 16) div 16 = a"
    and "(a mod 4 * 16 + b div 16) mod 16 * 16 + (b mod 16 * 4 + c div 64) div 4 = b"
    and "(b mod 16 * 4 + c div 64) mod 4 * 64 + c mod 64 = c"
proof -
  have b16: "b div 16 < 16" and c64: "c div 64 < 4" using assms by auto
  show "a div 4 * 4 + (a mod 4 * 16 + b div 16) div 16 = a"
    by (simp add: div_mult_add [OF b16])
  show "(a mod 4 * 16 + b div 16) mod 16 * 16 + (b mod 16 * 4 + c div 64) div 4 = b"
    using b16 by (simp add: div_mult_add [OF c64])
  show "(b mod 16 * 4 + c div 64) mod 4 * 64 + c mod 64 = c"
    using c64 by simp
qed

lemma sextet_bounds:
  fixes a b c :: nat
  assumes "a < 256" "b < 256" "c < 256"
  shows "a div 4 < 64" "a mod 4 * 16 + b div 16 < 64" "b mod 16 * 4 + c div 64 < 64" "c mod 64 < 64"
proof -
  have "a mod 4 < 4" "b div 16 < 16" "b mod 16 < 16" "c div 64 < 4" using assms by auto
  then show "a mod 4 * 16 + b div 16 < 64" "b mod 16 * 4 + c div 64 < 64" by linarith+
  show "a div 4 < 64" "c mod 64 < 64" using assms by auto
qed


lemma of_nat_unat_byte: "of_nat (unat (a :: byte)) = a"
  by simp

lemma decode_group4:
  "decodeSextets (unat a div 4 # (unat a mod 4 * 16 + unat b div 16)
      # (unat b mod 16 * 4 + unat c div 64) # unat c mod 64 # r) = a # b # c # decodeSextets r"
  by (simp only: decodeSextets.simps append_Cons append_Nil of_nat_unat_byte
      sextet_arith [OF unat_byte_lt unat_byte_lt])

lemma decode_group3:
  "decodeSextets [unat a div 4, unat a mod 4 * 16 + unat b div 16, unat b mod 16 * 4] = [a, b]"
proof -
  have "(unat a mod 4 * 16 + unat b div 16) mod 16 * 16 + unat b mod 16 * 4 div 4 = unat b"
    using sextet_arith(2) [of "unat b" 0 "unat a"] unat_byte_lt [of b] by simp
  then show ?thesis
    by (simp only: decodeSextets.simps of_nat_unat_byte
        sextet_arith(1) [OF unat_byte_lt [of b], of 0 "unat a"])
qed

lemma decode_group2: "decodeSextets [unat a div 4, unat a mod 4 * 16] = [a]"
proof -
  have "unat a div 4 * 4 + unat a mod 4 * 16 div 16 = unat a"
    using sextet_arith(1) [of 0 0 "unat a"] by simp
  then show ?thesis
    by (simp only: decodeSextets.simps of_nat_unat_byte)
qed

lemma fromBase64_toBase64_junk:
  "\<forall>c\<in>set x. unbase64 (ucast c) = None \<Longrightarrow> fromBase64 (toBase64 bs @ x) = bs"
proof (induction bs rule: toBase64.induct)
  case 1
  then show ?case using sextets_junk [of x] by (simp add: fromBase64_def)
next
  case (2 a)
  have lt: "unat a div 4 < 64" "unat a mod 4 * 16 < 64"
    using sextet_bounds [of "unat a" 0 0] unat_byte_lt [of a] by simp_all
  have "sextets (toBase64 [a] @ x) = [unat a div 4, unat a mod 4 * 16]"
    by (simp only: toBase64.simps append_Cons append_Nil sextets_legal lt sextets_pad)
  then show ?case
    by (simp only: fromBase64_def decode_group2)
next
  case (3 a b)
  have lt: "unat a div 4 < 64" "unat a mod 4 * 16 + unat b div 16 < 64" "unat b mod 16 * 4 < 64"
    using sextet_bounds [of "unat a" "unat b" 0] unat_byte_lt [of a] unat_byte_lt [of b]
    by simp_all
  have "sextets (toBase64 [a, b] @ x)
      = [unat a div 4, unat a mod 4 * 16 + unat b div 16, unat b mod 16 * 4]"
    by (simp only: toBase64.simps append_Cons append_Nil sextets_legal lt sextets_pad)
  then show ?case
    by (simp only: fromBase64_def decode_group3)
next
  case (4 a b c rest)
  have lt: "unat a div 4 < 64" "unat a mod 4 * 16 + unat b div 16 < 64"
    "unat b mod 16 * 4 + unat c div 64 < 64" "unat c mod 64 < 64"
    by (rule sextet_bounds; rule unat_byte_lt)+
  have "sextets (toBase64 (a # b # c # rest) @ x)
      = unat a div 4 # (unat a mod 4 * 16 + unat b div 16)
          # (unat b mod 16 * 4 + unat c div 64) # unat c mod 64 # sextets (toBase64 rest @ x)"
    by (simp only: toBase64.simps append_Cons append_Nil sextets_legal lt)
  moreover from 4 have "decodeSextets (sextets (toBase64 rest @ x)) = rest"
    by (simp only: fromBase64_def)
  ultimately show ?case
    by (simp only: fromBase64_def decode_group4)
qed

lemma length_xorBytes: "length (xorBytes a b) = min (length a) (length b)"
  by (simp add: xorBytes_def)

lemma xorBytes_involution: "length a \<le> length k \<Longrightarrow> xorBytes (xorBytes a k) k = a"
proof (induction a arbitrary: k)
  case Nil
  then show ?case by (simp add: xorBytes_def)
next
  case (Cons x a)
  then obtain y k' where k: "k = y # k'" by (cases k) auto
  with Cons have "xorBytes (xorBytes a k') k' = a" by simp
  moreover have "(x XOR y) XOR y = x"
    by (simp add: xor.assoc)
  ultimately show ?case by (simp add: xorBytes_def k)
qed

lemma length_blockToBytes: "length (blockToBytes w) = 16"
  by (simp add: blockToBytes_def)

lemma gctr_Nil: "gctr key cb [] = []"
  by (subst gctr.simps) simp

lemma gctr_step:
  "xs \<noteq> [] \<Longrightarrow>
   gctr key cb xs =
     xorBytes (take 16 xs) (blockToBytes (aes256 key cb)) @ gctr key (inc32 cb) (drop 16 xs)"
  by (subst gctr.simps) simp

lemma length_gctr: "length (gctr key cb xs) = length xs"
proof (induction key cb xs rule: gctr.induct)
  case (1 key cb xs)
  show ?case
  proof (cases "xs = []")
    case True
    then show ?thesis by (simp add: gctr_Nil)
  next
    case False
    with 1 have "length (gctr key (inc32 cb) (drop 16 xs)) = length xs - 16" by simp
    with False show ?thesis
      by (simp add: gctr_step [OF False] length_xorBytes length_blockToBytes)
  qed
qed

lemma gctr_involution: "gctr key cb (gctr key cb xs) = xs"
proof (induction key cb xs rule: gctr.induct)
  case (1 key cb xs)
  show ?case
  proof (cases "xs = []")
    case True
    then show ?thesis by (simp add: gctr_Nil)
  next
    case False
    define ks where "ks = blockToBytes (aes256 key cb)"
    define a where "a = xorBytes (take 16 xs) ks"
    define r where "r = gctr key (inc32 cb) (drop 16 xs)"
    have unfold: "gctr key cb xs = a @ r"
      unfolding a_def r_def ks_def by (rule gctr_step [OF False])
    have lk: "length ks = 16"
      by (simp add: ks_def length_blockToBytes)
    have la: "length a = min 16 (length xs)"
      by (simp add: a_def lk length_xorBytes)
    have lr: "length r = length xs - 16"
      by (simp add: r_def length_gctr)
    have ta: "take 16 (a @ r) = a"
      using la lr by (cases "16 \<le> length xs") simp_all
    have da: "drop 16 (a @ r) = r"
      using la lr by (cases "16 \<le> length xs") simp_all
    have "0 < length a"
      using la False by (cases xs) simp_all
    then have ne: "a @ r \<noteq> []"
      by auto
    have ih: "gctr key (inc32 cb) r = drop 16 xs"
      unfolding r_def by (rule 1 [OF False])
    have inv: "xorBytes a ks = take 16 xs"
      unfolding a_def by (rule xorBytes_involution) (simp add: lk)
    have "gctr key cb (a @ r) = xorBytes (take 16 (a @ r)) ks @ gctr key (inc32 cb) (drop 16 (a @ r))"
      unfolding ks_def by (rule gctr_step [OF ne])
    also have "\<dots> = take 16 xs @ drop 16 xs"
      by (simp only: ta da ih inv)
    finally show ?thesis
      by (simp only: unfold append_take_drop_id)
  qed
qed

lemma gcmCrypt_involution: "gcmCrypt key iv (gcmCrypt key iv p) = p"
  by (simp add: gcmCrypt_def gctr_involution)

lemma length_gcmCrypt: "length (gcmCrypt key iv p) = length p"
  by (simp add: gcmCrypt_def length_gctr)

lemma length_gcmTag: "length (gcmTag key iv ct) = 16"
  by (simp add: gcmTag_def Let_def length_blockToBytes)

lemma fromBase64_toBase64: "fromBase64 (toBase64 bs) = bs"
  using fromBase64_toBase64_junk [of "[]" bs] by simp

lemma toBase64_eq_Nil: "toBase64 bs = [] \<longleftrightarrow> bs = []"
  by (induction bs rule: toBase64.induct) simp_all

lemma str_keys:
  "str ''iv'' \<noteq> str ''data''" "str ''iv'' \<noteq> str ''tag''" "str ''data'' \<noteq> str ''tag''"
  "str ''data'' \<noteq> str ''iv''" "str ''tag'' \<noteq> str ''iv''" "str ''tag'' \<noteq> str ''data''"
  by (simp_all add: str_def)

lemma decryptPayload_strings:
  "decryptPayload H key (JObj [(str ''iv'', JStr i), (str ''data'', JStr d), (str ''tag'', JStr t)]) =
     (if i = [] \<or> d = [] \<or> t = [] then Inl InvalidPayloadStructure
      else bindE (createCipheriv key (fromBase64 i)) (\<lambda>_.
           bindE (setAuthTag (fromBase64 t)) (\<lambda>_.
             decipherFinal key (fromBase64 i) (fromBase64 t) (fromBase64 d))))"
  by (simp add: decryptPayload_def getProp_def bindE_def str_keys truthy_def bufferFrom_def)

subsection \<open>Strings\<close>

lemma trim_eq_Nil: "trim s = [] \<longleftrightarrow> list_all isWhiteSpace s"
proof
  assume "trim s = []"
  then have all: "\<forall>x\<in>set (dropWhile isWhiteSpace s). isWhiteSpace x"
    by (simp add: trim_def dropWhile_eq_Nil_conv)
  have "dropWhile isWhiteSpace s = []"
  proof (cases "dropWhile isWhiteSpace s")
    case (Cons x xs)
    then have "\<not> isWhiteSpace x"
      using hd_dropWhile [of isWhiteSpace s] by simp
    with all Cons show ?thesis by simp
  qed simp
  then show "list_all isWhiteSpace s"
    by (simp add: dropWhile_eq_Nil_conv list_all_iff)
next
  assume "list_all isWhiteSpace s"
  then have e: "dropWhile isWhiteSpace s = []"
    by (simp add: dropWhile_eq_Nil_conv list_all_iff)
  show "trim s = []"
    by (simp only: trim_def e rev.simps dropWhile.simps)
qed

text \<open>
  C7. Whatever the loaded directory and the index, a search whose query is empty or made
  of whitespace only returns no record.
\<close>

theorem findMatches_blank_query:
  "list_all isWhiteSpace query \<Longrightarrow> findMatches H s query = []"
  by (simp add: findMatches_def trim_eq_Nil)

theorem findMatches_blank_query_witness:
  "list_all isWhiteSpace (str '' '') \<and>
   findMatches exampleHost
     \<lparr>clients = [\<lparr>name = str ''Acme Corp'', manager = str ''Ivan'', code = str ''A1''\<rparr>],
                   fuse = None, authorizedUsers = []\<rparr> (str '' '') = []"
  using findMatches_blank_query [of "str '' ''"]
  by (simp add: str_def isWhiteSpace_def)


subsection \<open>Cipher store\<close>

text \<open>
  C1 (amended). For every 32-byte key, every 12-byte nonce and every plaintext that is not
  empty, \<open>encryptData\<close> returns a payload, and decrypting that payload with the same
  key gives the plaintext back.
\<close>

theorem encrypt_decrypt_roundtrip:
  assumes "length k = 32" "length iv = 12" "p \<noteq> []"
  shows "\<exists>payload. encryptData k iv p = Inr payload \<and> decryptPayload H k payload = Inr p"
proof -
  have iv: "iv \<noteq> []" "\<not> 128 < length iv" using assms(2) by auto
  have ct: "gcmCrypt k iv p \<noteq> []" using assms(3) length_gcmCrypt [of k iv p] by auto
  have tg: "gcmTag k iv (gcmCrypt k iv p) \<noteq> []" using length_gcmTag [of k iv "gcmCrypt k iv p"] by auto
  show ?thesis
    using assms(1) iv ct tg
    by (simp add: encryptData_def createCipheriv_def bindE_def Let_def decryptPayload_strings
        toBase64_eq_Nil fromBase64_toBase64 setAuthTag_def length_gcmTag decipherFinal_def
        gcmCrypt_involution)
qed

theorem encrypt_decrypt_roundtrip_witness:
  "length (replicate 32 (0 :: byte)) = 32 \<and> length (replicate 12 (0 :: byte)) = 12 \<and>
   [0x5B, 0x5D] \<noteq> ([] :: bytes) \<and>
   (\<exists>payload. encryptData (replicate 32 0) (replicate 12 0) [0x5B, 0x5D] = Inr payload \<and>
      decryptPayload exampleHost (replicate 32 0) payload = Inr [0x5B, 0x5D])"
  using encrypt_decrypt_roundtrip [of "replicate 32 0" "replicate 12 0" "[0x5B, 0x5D]" exampleHost]
  by simp

text \<open>
  The empty plaintext does not come back: its ciphertext is empty, \<open>data\<close> is the empty
  string, and the guard of line 110 rejects the payload.
\<close>

theorem empty_plaintext_rejected:
  "bindE (encryptData (replicate 32 0) (replicate 12 0) [])
     (decryptPayload exampleHost (replicate 32 0)) = Inl InvalidPayloadStructure"
  by (simp add: encryptData_def createCipheriv_def bindE_def Let_def gcmCrypt_def gctr_Nil
      decryptPayload_strings)

subsection \<open>Session gate\<close>

lemma whitespace_no_slash:
  assumes "list_all isWhiteSpace t"
  shows "\<not> startsWith t (str ''/'')" and "\<not> includesStr t (str ''/start'')"
proof -
  have ns: "\<not> isWhiteSpace 0x2F" by (simp add: isWhiteSpace_def)
  have notin: "0x2F \<notin> set t" using assms ns by (auto simp: list_all_iff)
  show "\<not> startsWith t (str ''/'')"
  proof
    assume "startsWith t (str ''/'')"
    then have "set (str ''/'') \<subseteq> set t"
      unfolding startsWith_def by (rule set_mono_prefix)
    with notin show False by (simp add: str_def)
  qed
  show "\<not> includesStr t (str ''/start'')"
  proof
    assume "includesStr t (str ''/start'')"
    then have "set (str ''/start'') \<subseteq> set t"
      unfolding includesStr_def by (rule set_mono_sublist)
    with notin show False by (simp add: str_def)
  qed
qed

lemma msg_distinct: "msgNoMatches \<noteq> msgSendQuery"
  by (simp add: msgNoMatches_def msgSendQuery_def)

lemma ex1: "list_all isWhiteSpace (str ''  '')"
  by (simp add: str_def isWhiteSpace_def)

lemma ex2: "trim (str ''zzzzz'') = str ''zzzzz''"
  by (simp add: trim_def str_def isWhiteSpace_def)

lemma ex3: "findMatches exampleHost exampleState (str ''zzzzz'') = []"
  by (simp add: findMatches_def ex2 exampleState_def exampleHost_def fallbackSearch_def
      toLowerCase_def acme_def str_def simpleChar_def lowerChar_def includesStr_def
      sublist_Cons_right)

lemma ex_code: "trim (str '' 22170313'') = ACCESS_CODE" "str '' 22170313'' \<noteq> ACCESS_CODE"
  "trim (str ''22170313'') = ACCESS_CODE" "trim (str ''1234'') \<noteq> ACCESS_CODE"
  by (simp_all add: trim_def str_def isWhiteSpace_def ACCESS_CODE_def)

text \<open>
  C10. For an authorized identity: a message without text, or with the empty text, changes
  nothing and sends nothing; a text that is not empty but made of whitespace only is
  answered by the "please send a search query" prompt whatever the directory and the index
  hold, so no lookup runs; a query that is not blank, is not a command and has no match is
  answered by the "no matches" message, which is a different text.
\<close>

theorem authorized_blank_text:
  assumes "chatId msg \<in> set (authorizedUsers s)"
  shows "(msgText msg = None \<or> msgText msg = Some [] \<longrightarrow>
            processUpdate H key w msg (s, d) = ((s, d), []))
       \<and> (\<forall>t. msgText msg = Some t \<and> t \<noteq> [] \<and> list_all isWhiteSpace t \<longrightarrow>
            processUpdate H key w msg (s, d) = ((s, d), [SendMessage (chatId msg) msgSendQuery]))
       \<and> (\<forall>t. msgText msg = Some t \<and> trim t \<noteq> [] \<and> \<not> startsWith t (str ''/'')
              \<and> findMatches H s t = [] \<longrightarrow>
            processUpdate H key w msg (s, d) =
              ((s, d), SendMessage (chatId msg) msgNoMatches
                       # (if includesStr t (str ''/start'')
                          then [SendMessage (chatId msg) msgWelcomeBack] else [])))
       \<and> msgNoMatches \<noteq> msgSendQuery"
proof (intro conjI allI impI)
  assume "msgText msg = None \<or> msgText msg = Some []"
  then show "processUpdate H key w msg (s, d) = ((s, d), [])"
    by (auto simp: processUpdate_def onMessage_def includesStr_def str_def)
next
  fix t
  assume a: "msgText msg = Some t \<and> t \<noteq> [] \<and> list_all isWhiteSpace t"
  then have "trim t = []" by (simp add: trim_eq_Nil)
  with a assms whitespace_no_slash [of t]
  show "processUpdate H key w msg (s, d) = ((s, d), [SendMessage (chatId msg) msgSendQuery])"
    by (simp add: processUpdate_def onMessage_def handleSearchMessage_def)
next
  fix t
  assume a: "msgText msg = Some t \<and> trim t \<noteq> [] \<and> \<not> startsWith t (str ''/'')
              \<and> findMatches H s t = []"
  then have "t \<noteq> []" by (auto simp: trim_def)
  with a assms
  show "processUpdate H key w msg (s, d) =
              ((s, d), SendMessage (chatId msg) msgNoMatches
                       # (if includesStr t (str ''/start'')
                          then [SendMessage (chatId msg) msgWelcomeBack] else []))"
    by (simp add: processUpdate_def onMessage_def handleSearchMessage_def formatResult_def
        onStart_def)
next
  show "msgNoMatches \<noteq> msgSendQuery" by (rule msg_distinct)
qed

theorem authorized_blank_text_witness:
  "str ''42'' \<in> set (authorizedUsers exampleState)
   \<and> processUpdate exampleHost exampleKey True \<lparr>chatId = str ''42'', msgText = None\<rparr>
         (exampleState, exampleDisk) = ((exampleState, exampleDisk), [])
   \<and> processUpdate exampleHost exampleKey True \<lparr>chatId = str ''42'', msgText = Some (str ''  '')\<rparr>
         (exampleState, exampleDisk)
       = ((exampleState, exampleDisk), [SendMessage (str ''42'') msgSendQuery])
   \<and> processUpdate exampleHost exampleKey True \<lparr>chatId = str ''42'', msgText = Some (str ''zzzzz'')\<rparr>
         (exampleState, exampleDisk)
       = ((exampleState, exampleDisk), [SendMessage (str ''42'') msgNoMatches])"
proof -
  have auth: "str ''42'' \<in> set (authorizedUsers exampleState)"
    by (simp add: exampleState_def)
  have ne: "str ''  '' \<noteq> []" "str ''zzzzz'' \<noteq> []" by (simp_all add: str_def)
  have ns: "\<not> startsWith (str ''zzzzz'') (str ''/'')" "\<not> includesStr (str ''zzzzz'') (str ''/start'')"
    by (simp_all add: startsWith_def includesStr_def str_def sublist_Cons_right)
  note t1 = authorized_blank_text [of "\<lparr>chatId = str ''42'', msgText = None\<rparr>" exampleState
      exampleHost exampleKey True exampleDisk]
  note t2 = authorized_blank_text [of "\<lparr>chatId = str ''42'', msgText = Some (str ''  '')\<rparr>" exampleState
      exampleHost exampleKey True exampleDisk]
  note t3 = authorized_blank_text [of "\<lparr>chatId = str ''42'', msgText = Some (str ''zzzzz'')\<rparr>" exampleState
      exampleHost exampleKey True exampleDisk]
  from t1 auth t2 t3 ex1 ex2 ex3 ne ns show ?thesis by simp
qed

text \<open>
  C2 (amended). For an identity that is not authorized and a message whose text is not
  empty: when the text, with the whitespace at both ends removed, equals the access code,
  the identity is appended to the registry, the registry file is rewritten when the write
  succeeds, and the confirmation is sent; otherwise the state and the files stay as they
  are and the access-code prompt is sent.
\<close>

theorem access_code_gate:
  assumes "chatId msg \<notin> set (authorizedUsers s)" and "msgText msg = Some t" and "t \<noteq> []"
  shows "(trim t = ACCESS_CODE \<longrightarrow>
            (\<exists>d' out. processUpdate H key w msg (s, d)
                 = ((s\<lparr>authorizedUsers := authorizedUsers s @ [chatId msg]\<rparr>, d'), out)
               \<and> SendMessage (chatId msg) msgAccessGranted \<in> set out
               \<and> (w \<longrightarrow> authFile d' = Content (jsonStringify H
                         (JArr (map JStr (authorizedUsers s @ [chatId msg])))))))
       \<and> (trim t \<noteq> ACCESS_CODE \<longrightarrow>
            (\<exists>out. processUpdate H key w msg (s, d) = ((s, d), out)
               \<and> SendMessage (chatId msg) msgAccessPrompt \<in> set out))"
  using assms
  by (simp add: processUpdate_def onMessage_def handleUnauthorizedMessage_def
      addAuthorizedUser_def Let_def)

theorem access_code_gate_witness:
  "str ''7'' \<notin> set (authorizedUsers exampleState)
   \<and> str ''22170313'' \<noteq> [] \<and> str ''1234'' \<noteq> []
   \<and> (\<exists>d' out. processUpdate exampleHost exampleKey True
           \<lparr>chatId = str ''7'', msgText = Some (str ''22170313'')\<rparr> (exampleState, exampleDisk)
             = ((exampleState\<lparr>authorizedUsers := [str ''42'', str ''7'']\<rparr>, d'), out)
          \<and> SendMessage (str ''7'') msgAccessGranted \<in> set out)
   \<and> (\<exists>out. processUpdate exampleHost exampleKey True
           \<lparr>chatId = str ''7'', msgText = Some (str ''1234'')\<rparr> (exampleState, exampleDisk)
             = ((exampleState, exampleDisk), out)
          \<and> SendMessage (str ''7'') msgAccessPrompt \<in> set out)"
proof -
  have new: "str ''7'' \<notin> set (authorizedUsers exampleState)"
    by (simp add: exampleState_def str_def)
  have ne: "str ''22170313'' \<noteq> []" "str ''1234'' \<noteq> []"
    by (simp_all add: str_def)
  have users: "authorizedUsers exampleState @ [str ''7''] = [str ''42'', str ''7'']"
    by (simp add: exampleState_def)
  note ok = access_code_gate [of "\<lparr>chatId = str ''7'', msgText = Some (str ''22170313'')\<rparr>"
      exampleState "str ''22170313''" exampleHost exampleKey True exampleDisk]
  note no = access_code_gate [of "\<lparr>chatId = str ''7'', msgText = Some (str ''1234'')\<rparr>"
      exampleState "str ''1234''" exampleHost exampleKey True exampleDisk]
  from ok new ne have a: "\<exists>d' out. processUpdate exampleHost exampleKey True
           \<lparr>chatId = str ''7'', msgText = Some (str ''22170313'')\<rparr> (exampleState, exampleDisk)
             = ((exampleState\<lparr>authorizedUsers := [str ''42'', str ''7'']\<rparr>, d'), out)
          \<and> SendMessage (str ''7'') msgAccessGranted \<in> set out"
    by (simp add: ex_code users) blast
  from no new ne have b: "\<exists>out. processUpdate exampleHost exampleKey True
           \<lparr>chatId = str ''7'', msgText = Some (str ''1234'')\<rparr> (exampleState, exampleDisk)
             = ((exampleState, exampleDisk), out)
          \<and> SendMessage (str ''7'') msgAccessPrompt \<in> set out"
    by (simp add: ex_code)
  from new ne a b show ?thesis by blast
qed

text \<open>
  The match is not exact: the access code preceded by a space is not the access code, and
  it authorizes.
\<close>

theorem padded_code_authorizes:
  "str '' 22170313'' \<noteq> ACCESS_CODE
   \<and> str ''7'' \<notin> set (authorizedUsers exampleState)
   \<and> str ''7'' \<in> set (authorizedUsers (fst (fst (processUpdate exampleHost exampleKey True
         \<lparr>chatId = str ''7'', msgText = Some (str '' 22170313'')\<rparr> (exampleState, exampleDisk)))))"
proof -
  have new: "str ''7'' \<notin> set (authorizedUsers exampleState)"
    by (simp add: exampleState_def str_def)
  have ne: "str '' 22170313'' \<noteq> []"
    by (simp add: str_def)
  from new ne show ?thesis
    by (simp add: ex_code processUpdate_def onMessage_def handleUnauthorizedMessage_def
        addAuthorizedUser_def Let_def)
qed

subsection \<open>Access registry\<close>

lemma addAuthorizedUser_grows:
  "set (authorizedUsers s) \<subseteq> set (authorizedUsers (fst (fst (addAuthorizedUser H w u (s, d)))))"
  by (auto simp: addAuthorizedUser_def Let_def)

lemma loadClients_users: "authorizedUsers (fst (loadClients H key d s)) = authorizedUsers s"
  by (simp add: loadClients_def split_beta)

lemma onMessage_grows:
  "set (authorizedUsers s) \<subseteq> set (authorizedUsers (fst (fst (onMessage H key w msg (s, d)))))"
proof -
  have "set (authorizedUsers s)
      \<subseteq> set (authorizedUsers (fst (fst (handleUnauthorizedMessage H w c t (s, d)))))" for c t
    using addAuthorizedUser_grows [of s H w c d]
    by (simp add: handleUnauthorizedMessage_def split_beta)
  moreover have "authorizedUsers (fst (fst (case loadClients H key d s of
      (s', out) \<Rightarrow> ((s', d), out @ [SendMessage (chatId msg) msgReloaded])))) = authorizedUsers s"
    using loadClients_users [of H key d s] by (simp add: split_beta)
  ultimately show ?thesis
    by (simp add: onMessage_def Let_def)
qed

lemma step_grows:
  "set (authorizedUsers (fst sd)) \<subseteq> set (authorizedUsers (fst (fst (step H key e sd))))"
proof (cases sd)
  case (Pair s d)
  show ?thesis
  proof (cases e)
    case (Update w msg)
    then show ?thesis
      using onMessage_grows [of s H key w msg d] Pair
      by (simp add: processUpdate_def split_beta)
  next
    case DataChanged
    then show ?thesis
      using loadClients_users [of H key d s] Pair
      by (simp add: onDataChange_def split_beta)
  next
    case (FilesChanged d')
    then show ?thesis by simp
  qed
qed

lemma run_grows:
  "set (authorizedUsers (fst sd)) \<subseteq> set (authorizedUsers (fst (fst (run H key es sd))))"
proof (induction es arbitrary: sd)
  case Nil
  then show ?case by simp
next
  case (Cons e es)
  obtain sd' out where st: "step H key e sd = (sd', out)" by (cases "step H key e sd")
  have "set (authorizedUsers (fst sd)) \<subseteq> set (authorizedUsers (fst sd'))"
    using step_grows [of sd H key e] st by simp
  also have "\<dots> \<subseteq> set (authorizedUsers (fst (fst (run H key es sd'))))"
    by (rule Cons.IH)
  finally show ?case
    using st by (simp add: split_beta)
qed

text \<open>
  C8. Along every run of the program after startup (updates from the chat transport,
  reloads, changes of the files by the environment) the authorized-user set only grows:
  every identity in it stays in it. Authorizing an identity that is already in the set
  changes neither the set nor the registry file, and logs nothing.
\<close>

theorem registry_monotonic:
  "set (authorizedUsers s) \<subseteq> set (authorizedUsers (fst (fst (run H key es (s, d)))))
   \<and> (u \<in> set (authorizedUsers s) \<longrightarrow> addAuthorizedUser H w u (s, d) = ((s, d), []))"
  using run_grows [of "(s, d)" H key es]
  by (simp add: addAuthorizedUser_def)

theorem registry_monotonic_witness:
  "str ''42'' \<in> set (authorizedUsers exampleState)
   \<and> set (authorizedUsers exampleState)
       \<subseteq> set (authorizedUsers (fst (fst (run exampleHost exampleKey
           [Update True \<lparr>chatId = str ''7'', msgText = Some (str ''22170313'')\<rparr>,
            Update False \<lparr>chatId = str ''42'', msgText = Some (str ''/reload'')\<rparr>,
            DataChanged,
            FilesChanged \<lparr>dataFile = Absent, authFile = Absent\<rparr>]
           (exampleState, exampleDisk)))))
   \<and> addAuthorizedUser exampleHost True (str ''42'') (exampleState, exampleDisk)
       = ((exampleState, exampleDisk), [])"
proof -
  have "str ''42'' \<in> set (authorizedUsers exampleState)"
    by (simp add: exampleState_def)
  with registry_monotonic [of exampleState exampleHost exampleKey _ exampleDisk "str ''42''" True]
  show ?thesis by blast
qed

subsection \<open>Search fallback\<close>

lemma fallbackSearch_spec: "fallbackSearch H s query = specFallback H (clients s) query 5"
proof -
  have "specMatches H query =
      (\<lambda>c. includesStr (toLowerCase H (name c)) (toLowerCase H query)
           \<or> includesStr (toLowerCase H (manager c)) (toLowerCase H query)
           \<or> includesStr (toLowerCase H (code c)) (toLowerCase H query))"
    by (rule ext) (simp add: specMatches_def containsIgnoringCase_def)
  then show ?thesis
    by (simp add: fallbackSearch_def specFallback_def Let_def)
qed

lemma findMatches_fallback:
  assumes "trim query \<noteq> []" and "case fuse s of None \<Rightarrow> True | Some idx \<Rightarrow> idx query = []"
  shows "findMatches H s query = fallbackSearch H s query"
  using assms by (simp add: findMatches_def split: option.splits)

lemma specFallback_no_match:
  "\<forall>c\<in>set cs. \<not> specMatches H query c \<Longrightarrow> specFallback H cs query n = []"
  by (simp add: specFallback_def filter_empty_conv)

lemma simple_lowersByUnit:
  "list_all simpleChar t \<Longrightarrow> lowersByUnit H (\<lambda>c. [lowerChar c]) t"
  by (simp add: lowersByUnit_def toLowerCase_def concat_map_singleton)

lemma unitwise_includes:
  assumes "lowersByUnit H g field" and "lowersByUnit H g query" and "includesStr field query"
  shows "containsIgnoringCase H field query"
proof -
  from assms(3) obtain ps ss where "field = ps @ query @ ss"
    by (auto simp: includesStr_def sublist_def)
  then have "concat (map g field) = concat (map g ps) @ concat (map g query) @ concat (map g ss)"
    by simp
  then have "sublist (concat (map g query)) (concat (map g field))"
    unfolding sublist_def by blast
  with assms(1,2) show ?thesis
    by (simp add: containsIgnoringCase_def lowersByUnit_def includesStr_def)
qed

lemma first_five:
  assumes "c \<in> set ms" and "length (takeWhile (\<lambda>x. x \<noteq> c) ms) < 5"
  shows "c \<in> set (take 5 ms)"
proof -
  define k where "k = length (takeWhile (\<lambda>x. x \<noteq> c) ms)"
  have "takeWhile (\<lambda>x. x \<noteq> c) ms \<noteq> ms"
    using assms(1) by (auto simp: takeWhile_eq_all_conv)
  then have lt: "k < length ms"
    using length_takeWhile_le [of "\<lambda>x. x \<noteq> c" ms] unfolding k_def
    by (metis le_neq_implies_less takeWhile_eq_take take_all_iff order_refl)
  then have "\<not> (ms ! k \<noteq> c)"
    unfolding k_def by (rule nth_length_takeWhile)
  then have "ms ! k = c" by simp
  moreover have "k < length (take 5 ms)" using lt assms(2) by (simp add: k_def)
  moreover have "take 5 ms ! k = ms ! k" using assms(2) by (simp add: k_def)
  ultimately show ?thesis by (metis nth_mem)
qed

text \<open>
  C3 (amended). For every query that is not empty and on which the fuzzy index returns no
  result (or when there is no index), \<open>findMatches\<close> returns the fallback: of the
  records of which \<open>name\<close>, \<open>manager\<close> or \<open>code\<close> contains the query when both
  are lower-cased, the first five in the order of the collection. The index is consulted
  on the queries that are not blank; a blank query is covered when no record contains it.
  In particular a record whose name contains the query as it is, where lower-casing works
  code unit by code unit on the name and on the query (each unit lower-cased the same way
  whatever surrounds it), is one of the matching records, and so it is returned when
  fewer than five matching records come before it.
\<close>

theorem fallback_search:
  assumes "query \<noteq> []"
    and "case fuse s of None \<Rightarrow> True | Some idx \<Rightarrow> idx query = []"
    and "trim query \<noteq> [] \<or> (\<forall>c\<in>set (clients s). \<not> specMatches H query c)"
  shows "findMatches H s query = specFallback H (clients s) query 5
       \<and> (\<forall>c\<in>set (clients s). \<forall>g.
             includesStr (name c) query \<and> lowersByUnit H g (name c) \<and> lowersByUnit H g query
             \<longrightarrow> specMatches H query c
                 \<and> (length (takeWhile (\<lambda>x. x \<noteq> c)
                       (filter (specMatches H query) (clients s))) < 5
                    \<longrightarrow> c \<in> set (findMatches H s query)))"
proof -
  have eq: "findMatches H s query = specFallback H (clients s) query 5"
  proof (cases "trim query = []")
    case False
    then show ?thesis
      using findMatches_fallback [OF False assms(2)] by (simp add: fallbackSearch_spec)
  next
    case True
    with assms(3) have "specFallback H (clients s) query 5 = []"
      by (simp add: specFallback_no_match)
    with True show ?thesis by (simp add: findMatches_def)
  qed
  have "specMatches H query c
      \<and> (length (takeWhile (\<lambda>x. x \<noteq> c) (filter (specMatches H query) (clients s))) < 5
         \<longrightarrow> c \<in> set (findMatches H s query))"
    if c: "c \<in> set (clients s)" and inc: "includesStr (name c) query"
      and n: "lowersByUnit H g (name c)" and q: "lowersByUnit H g query" for c g
  proof -
    have m: "specMatches H query c"
      using unitwise_includes [OF n q inc] by (simp add: specMatches_def)
    with c have "c \<in> set (filter (specMatches H query) (clients s))" by simp
    then have "c \<in> set (findMatches H s query)"
      if "length (takeWhile (\<lambda>x. x \<noteq> c) (filter (specMatches H query) (clients s))) < 5"
      using that by (simp add: eq specFallback_def first_five)
    with m show ?thesis by simp
  qed
  with eq show ?thesis by blast
qed

theorem fallback_search_witness:
  "str ''Corp'' \<noteq> []
   \<and> (case fuse exampleState of None \<Rightarrow> True | Some idx \<Rightarrow> idx (str ''Corp'') = [])
   \<and> trim (str ''Corp'') \<noteq> []
   \<and> findMatches exampleHost exampleState (str ''Corp'')
       = specFallback exampleHost (clients exampleState) (str ''Corp'') 5
   \<and> acme \<in> set (clients exampleState)
   \<and> includesStr (name acme) (str ''Corp'')
   \<and> lowersByUnit exampleHost (\<lambda>c. [lowerChar c]) (name acme)
   \<and> lowersByUnit exampleHost (\<lambda>c. [lowerChar c]) (str ''Corp'')
   \<and> specMatches exampleHost (str ''Corp'') acme
   \<and> acme \<in> set (findMatches exampleHost exampleState (str ''Corp''))"
proof -
  have ne: "str ''Corp'' \<noteq> []"
    by (simp add: str_def)
  have t: "trim (str ''Corp'') \<noteq> []"
    by (simp add: trim_def str_def isWhiteSpace_def)
  have f: "case fuse exampleState of None \<Rightarrow> True | Some idx \<Rightarrow> idx (str ''Corp'') = []"
    by (simp add: exampleState_def exampleHost_def)
  have q: "lowersByUnit exampleHost (\<lambda>c. [lowerChar c]) (str ''Corp'')"
    by (rule simple_lowersByUnit) (simp add: str_def simpleChar_def)
  have n: "lowersByUnit exampleHost (\<lambda>c. [lowerChar c]) (name acme)"
    by (rule simple_lowersByUnit) (simp add: acme_def str_def simpleChar_def)
  have i: "includesStr (name acme) (str ''Corp'')"
    by (simp add: acme_def includesStr_def str_def sublist_Cons_right)
  have c: "clients exampleState = [acme]"
    by (simp add: exampleState_def)
  have mem: "acme \<in> set (clients exampleState)"
    by (simp add: c)
  note th = fallback_search [OF ne f, of exampleHost, OF disjI1, OF t]
  note part = th [THEN conjunct2, THEN bspec, OF mem, THEN spec, of "\<lambda>c. [lowerChar c]", THEN mp,
      OF conjI, OF i conjI, OF n q]
  have m: "specMatches exampleHost (str ''Corp'') acme"
    by (rule part [THEN conjunct1])
  then have "length (takeWhile (\<lambda>x. x \<noteq> acme)
      (filter (specMatches exampleHost (str ''Corp'')) (clients exampleState))) < 5"
    by (simp add: c)
  then have r: "acme \<in> set (findMatches exampleHost exampleState (str ''Corp''))"
    by (rule part [THEN conjunct2, THEN mp])
  show ?thesis
    by (intro conjI ne f t th [THEN conjunct1] mem i n q m r)
qed

text \<open>
  Without that condition on lower-casing a name can contain the query and the record not
  be returned. The name \<open>U+0391 U+03A3\<close> contains the query \<open>U+03A3\<close>; lower-cased,
  the name ends in the final sigma \<open>U+03C2\<close> and the query is \<open>U+03C3\<close>, so that the
  index returns no result and the fallback returns none either.
\<close>

theorem final_sigma_not_returned:
  "trim sigmaQuery \<noteq> []
   \<and> clients sigmaState = [alphaSigma]
   \<and> fuse sigmaState = Some (newFuse greekHost [alphaSigma])
   \<and> newFuse greekHost [alphaSigma] sigmaQuery = []
   \<and> includesStr (name alphaSigma) sigmaQuery
   \<and> toLowerCase greekHost (name alphaSigma) = [0x3B1, 0x3C2]
   \<and> toLowerCase greekHost sigmaQuery = [0x3C3]
   \<and> findMatches greekHost sigmaState sigmaQuery = []"
proof -
  have t: "trim sigmaQuery \<noteq> []"
    by (simp add: trim_def sigmaQuery_def isWhiteSpace_def)
  have c: "clients sigmaState = [alphaSigma]"
    by (simp add: sigmaState_def)
  have f: "fuse sigmaState = Some (newFuse greekHost [alphaSigma])"
    by (simp add: sigmaState_def)
  have i: "includesStr (name alphaSigma) sigmaQuery"
    by (simp add: includesStr_def alphaSigma_def sigmaQuery_def sublist_Cons_right)
  have ln: "toLowerCase H (name alphaSigma) = [0x3B1, 0x3C2]"
    if "unicodeLower H = greekLower False" for H
    using that
    by (simp add: toLowerCase_def alphaSigma_def simpleChar_def greekCapital_def)
  have lq: "toLowerCase H sigmaQuery = [0x3C3]"
    if "unicodeLower H = greekLower False" for H
    using that
    by (simp add: toLowerCase_def sigmaQuery_def simpleChar_def greekCapital_def)
  have le: "toLowerCase H [] = []" for H
    by (simp add: toLowerCase_def)
  have m: "\<not> specMatches H sigmaQuery alphaSigma"
    if "unicodeLower H = greekLower False" for H
    using ln [OF that] lq [OF that]
    by (simp add: specMatches_def containsIgnoringCase_def includesStr_def le
        alphaSigma_def sublist_Cons_right)
  have u: "unicodeLower greekHost = greekLower False"
    by (simp add: greekHost_def)
  have e: "newFuse greekHost [alphaSigma] sigmaQuery = []"
    by (simp add: greekHost_def m)
  have "findMatches greekHost sigmaState sigmaQuery
      = specFallback greekHost (clients sigmaState) sigmaQuery 5"
    using findMatches_fallback [OF t, of sigmaState greekHost] f e
    by (simp add: fallbackSearch_spec)
  then have r: "findMatches greekHost sigmaState sigmaQuery = []"
    by (simp add: c specFallback_def m [OF u])
  show ?thesis
    by (intro conjI t c f e i ln [OF u] lq [OF u] r)
qed

subsection \<open>Loading the directory\<close>


lemma getProp_rawField:
  "e \<noteq> JUndefined \<Longrightarrow> e \<noteq> JNull \<Longrightarrow> getProp e k = Inr (rawField e k)"
  by (cases e) (simp_all add: getProp_def rawField_def)








lemma bindE_parseJson:
  "bindE (parseJson H t) f = (case jsonParse H t of None \<Rightarrow> Inl SyntaxError | Some v \<Rightarrow> f v)"
  by (simp add: parseJson_def bindE_def split: option.splits)

lemma readClients_Content:
  "readClients H key (Content raw) =
     (case jsonParse H raw of
        None \<Rightarrow> Inl SyntaxError
      | Some payload \<Rightarrow>
          (case decryptPayload H key payload of
             Inl e \<Rightarrow> Inl e
           | Inr plain \<Rightarrow>
               (case jsonParse H (utf8Decode H plain) of
                  None \<Rightarrow> Inl SyntaxError
                | Some parsed \<Rightarrow> normalizeClients H parsed)))"
  by (simp add: readClients_def bindE_parseJson) (simp add: bindE_def split: option.splits)

lemma readClients_fails:
  assumes "loadFails H key f"
  shows "\<exists>e. readClients H key f = Inl e"
proof (cases f)
  case (Content raw)
  show ?thesis
  proof (cases "jsonParse H raw")
    case None
    with Content show ?thesis by (simp add: readClients_Content)
  next
    case (Some payload)
    note payload = this
    show ?thesis
    proof (cases "decryptPayload H key payload")
      case (Inl e)
      with Content payload show ?thesis by (simp add: readClients_Content)
    next
      case (Inr plain)
      note plain = this
      show ?thesis
      proof (cases "jsonParse H (utf8Decode H plain)")
        case None
        with Content payload plain show ?thesis by (simp add: readClients_Content)
      next
        case (Some parsed)
        with assms Content payload plain obtain e where "normalizeClients H parsed = Inl e"
          by (cases "normalizeClients H parsed") (simp_all add: loadFails_def)
        with Content payload plain Some show ?thesis by (simp add: readClients_Content)
      qed
    qed
  qed
qed (simp_all add: readClients_def)

lemma decryptClientsPayload_fails:
  assumes "loadFails H key f"
  shows "decryptClientsPayload H key f = ([], [if f = Absent then ConsoleWarn else ConsoleError])"
proof (cases "f = Absent")
  case True
  then show ?thesis by (simp add: decryptClientsPayload_def)
next
  case False
  from readClients_fails [OF assms] obtain e where "readClients H key f = Inl e" by blast
  with False show ?thesis
    by (cases f) (simp_all add: decryptClientsPayload_def)
qed

text \<open>
  C5. Whenever the encrypted file is absent or unreadable, or its decryption fails, or the
  parsing of the file or of the plaintext fails, the load returns normally with the empty
  collection and no index, after a warning or an error message on the console; and when
  it is the watcher that started the load, the process goes on with the events that
  follow, from that state.
\<close>

theorem failed_load_is_empty:
  assumes "loadFails H key (dataFile d)"
  shows "loadClients H key d s
           = (s\<lparr>clients := [], fuse := None\<rparr>,
              [if dataFile d = Absent then ConsoleWarn else ConsoleError, ConsoleWarn])
       \<and> run H key (DataChanged # es) (s, d)
           = (fst (run H key es (s\<lparr>clients := [], fuse := None\<rparr>, d)),
              [ConsoleLog, if dataFile d = Absent then ConsoleWarn else ConsoleError, ConsoleWarn]
                @ snd (run H key es (s\<lparr>clients := [], fuse := None\<rparr>, d)))"
proof -
  have l: "loadClients H key d s
           = (s\<lparr>clients := [], fuse := None\<rparr>,
              [if dataFile d = Absent then ConsoleWarn else ConsoleError, ConsoleWarn])"
    using assms by (simp add: loadClients_def decryptClientsPayload_fails)
  then have "step H key DataChanged (s, d)
           = ((s\<lparr>clients := [], fuse := None\<rparr>, d),
              [ConsoleLog, if dataFile d = Absent then ConsoleWarn else ConsoleError, ConsoleWarn])"
    by (simp add: onDataChange_def)
  then have "run H key (DataChanged # es) (s, d)
           = (fst (run H key es (s\<lparr>clients := [], fuse := None\<rparr>, d)),
              [ConsoleLog, if dataFile d = Absent then ConsoleWarn else ConsoleError, ConsoleWarn]
                @ snd (run H key es (s\<lparr>clients := [], fuse := None\<rparr>, d)))"
    by (simp add: split_beta)
  with l show ?thesis by (rule conjI)
qed

theorem failed_load_is_empty_witness:
  "loadFails exampleHost exampleKey (dataFile exampleDisk)
   \<and> loadClients exampleHost exampleKey exampleDisk exampleState
       = (exampleState\<lparr>clients := [], fuse := None\<rparr>, [ConsoleWarn, ConsoleWarn])
   \<and> loadFails exampleHost exampleKey (dataFile \<lparr>dataFile = Content (str ''garbage''), authFile = Absent\<rparr>)
   \<and> loadClients exampleHost exampleKey \<lparr>dataFile = Content (str ''garbage''), authFile = Absent\<rparr>
         exampleState
       = (exampleState\<lparr>clients := [], fuse := None\<rparr>, [ConsoleError, ConsoleWarn])
   \<and> run exampleHost exampleKey [DataChanged] (exampleState, exampleDisk)
       = ((exampleState\<lparr>clients := [], fuse := None\<rparr>, exampleDisk),
          [ConsoleLog, ConsoleWarn, ConsoleWarn])"
proof -
  have f1: "loadFails exampleHost exampleKey (dataFile exampleDisk)"
    by (simp add: loadFails_def exampleDisk_def)
  have f2: "loadFails exampleHost exampleKey
      (dataFile \<lparr>dataFile = Content (str ''garbage''), authFile = Absent\<rparr>)"
    by (simp add: loadFails_def exampleHost_def)
  have ab: "dataFile exampleDisk = Absent"
    by (simp add: exampleDisk_def)
  note t1 = failed_load_is_empty [OF f1, of exampleState "[]"]
  note t2 = failed_load_is_empty [OF f2, of exampleState "[]"]
  from t1 have l1: "loadClients exampleHost exampleKey exampleDisk exampleState
       = (exampleState\<lparr>clients := [], fuse := None\<rparr>, [ConsoleWarn, ConsoleWarn])"
    by (simp add: ab)
  from t2 have l2: "loadClients exampleHost exampleKey
         \<lparr>dataFile = Content (str ''garbage''), authFile = Absent\<rparr> exampleState
       = (exampleState\<lparr>clients := [], fuse := None\<rparr>, [ConsoleError, ConsoleWarn])"
    by simp
  from t1 [THEN conjunct2]
  have l3: "run exampleHost exampleKey [DataChanged] (exampleState, exampleDisk)
       = ((exampleState\<lparr>clients := [], fuse := None\<rparr>, exampleDisk),
          [ConsoleLog, ConsoleWarn, ConsoleWarn])"
    by (simp add: ab)
  show ?thesis
    by (intro conjI f1 f2 l1 l2 l3)
qed

subsection \<open>Decryption fails closed\<close>

lemma decryptPayload_shape:
  "decryptPayload H key (JObj [(str ''iv'', i), (str ''data'', c), (str ''tag'', JStr t)]) =
     (if \<not> truthy H i \<or> \<not> truthy H c \<or> t = [] then Inl InvalidPayloadStructure
      else bindE (bufferFrom H i) (\<lambda>ivb.
           bindE (createCipheriv key ivb) (\<lambda>_.
           bindE (setAuthTag (fromBase64 t)) (\<lambda>_.
           bindE (bufferFrom H c) (\<lambda>ct.
             decipherFinal key ivb (fromBase64 t) ct)))))"
  by (simp add: decryptPayload_def getProp_def bindE_def str_keys truthy_def bufferFrom_def)

lemma bindE_Inr: "bindE r f = Inr y \<longleftrightarrow> (\<exists>v. r = Inr v \<and> f v = Inr y)"
  by (cases r) (simp_all add: bindE_def)

lemma xor_fixed: "(a :: byte) XOR m = a \<Longrightarrow> m = 0"
proof -
  assume "a XOR m = a"
  then have "a XOR (a XOR m) = a XOR a" by simp
  then show "m = 0" by (simp flip: xor.assoc)
qed

lemma bit_flip_mask: "j < 8 \<Longrightarrow> push_bit j (1 :: byte) \<noteq> 0"
proof
  assume j: "j < 8" and z: "push_bit j (1 :: byte) = 0"
  have "bit (push_bit j (1 :: byte)) j"
    using j by (simp add: bit_simps)
  then have "bit (0 :: byte) j" by (simp only: z)
  then show False by simp
qed

lemma flipBit_neq: "n < length bs \<Longrightarrow> j < 8 \<Longrightarrow> flipBit bs n j \<noteq> (bs :: bytes)"
proof
  assume n: "n < length bs" and j: "j < 8" and eq: "flipBit bs n j = bs"
  from eq have "flipBit bs n j ! n = bs ! n" by simp
  with n have "bs ! n XOR push_bit j 1 = bs ! n"
    by (simp add: flipBit_def)
  then have "push_bit j (1 :: byte) = 0" by (rule xor_fixed)
  with bit_flip_mask [OF j] show False by simp
qed

lemma length_flipBit: "length (flipBit bs n j) = length bs"
  by (simp add: flipBit_def)

lemma tag_mismatch_fails:
  assumes ok: "decryptPayload H key (JObj [(str ''iv'', i), (str ''data'', c), (str ''tag'', JStr t)])
      = Inr plain"
    and diff: "fromBase64 t' \<noteq> fromBase64 t"
    and len: "length (fromBase64 t') = length (fromBase64 t)"
  shows "decryptPayload H key (JObj [(str ''iv'', i), (str ''data'', c), (str ''tag'', JStr t')])
      = Inl AuthenticationFailed"
proof -
  from ok have tr: "truthy H i" "truthy H c" "t \<noteq> []"
    by (auto simp: decryptPayload_shape split: if_splits)
  with ok obtain ivb ct where
    ivb: "bufferFrom H i = Inr ivb" and cc: "createCipheriv key ivb = Inr ()"
    and st: "setAuthTag (fromBase64 t) = Inr ()" and ct: "bufferFrom H c = Inr ct"
    and fin: "decipherFinal key ivb (fromBase64 t) ct = Inr plain"
    by (auto simp: decryptPayload_shape bindE_Inr)
  from fin have valid: "take (length (fromBase64 t)) (gcmTag key ivb ct) = fromBase64 t"
    by (simp add: decipherFinal_def split: if_splits)
  from st have "length (fromBase64 t) \<noteq> 0"
    by (auto simp: setAuthTag_def split: if_splits)
  with len have ne: "t' \<noteq> []"
    by (auto simp: fromBase64_def sextets_def List.map_filter_simps)
  from st len have st': "setAuthTag (fromBase64 t') = Inr ()"
    by (simp add: setAuthTag_def)
  from valid diff len
  have "decipherFinal key ivb (fromBase64 t') ct = Inl AuthenticationFailed"
    by (simp add: decipherFinal_def)
  with tr ne ivb cc st' ct show ?thesis
    by (simp add: decryptPayload_shape bindE_def)
qed


lemma decrypt_encrypted:
  assumes "length k = 32" "iv \<noteq> []" "length iv \<le> 128" "p \<noteq> []"
  shows "decryptPayload H k (JObj [(str ''iv'', JStr (toBase64 iv)),
            (str ''data'', JStr (toBase64 (gcmCrypt k iv p))),
            (str ''tag'', JStr (toBase64 (gcmTag k iv (gcmCrypt k iv p))))]) = Inr p"
proof -
  have ct: "gcmCrypt k iv p \<noteq> []" using assms(4) length_gcmCrypt [of k iv p] by auto
  have tg: "gcmTag k iv (gcmCrypt k iv p) \<noteq> []"
    using length_gcmTag [of k iv "gcmCrypt k iv p"] by auto
  have iv: "\<not> 128 < length iv" using assms(3) by simp
  show ?thesis
    using assms(1,2) iv ct tg
    by (simp add: createCipheriv_def bindE_def decryptPayload_strings
        toBase64_eq_Nil fromBase64_toBase64 setAuthTag_def length_gcmTag decipherFinal_def
        gcmCrypt_involution)
qed

lemma dvd4_step: "4 dvd Suc (Suc (Suc (Suc n))) \<longleftrightarrow> 4 dvd n"
  by presburger

lemma wellFormed_length: "wellFormedBase64 s \<Longrightarrow> 4 dvd length s"
  by (induction s rule: wellFormedBase64.induct) (simp_all add: dvd4_step)

lemma length_toBase64: "4 dvd length (toBase64 bs)"
  by (induction bs rule: toBase64.induct) (simp_all add: dvd4_step)

lemma newline_not_wellFormed: "\<not> wellFormedBase64 (toBase64 bs @ [0xA])"
proof
  assume "wellFormedBase64 (toBase64 bs @ [0xA])"
  then have "4 dvd length (toBase64 bs) + 1" using wellFormed_length by fastforce
  with length_toBase64 [of bs] show False by presburger
qed

lemma fromBase64_newline: "fromBase64 (toBase64 bs @ [0xA]) = bs"
  by (rule fromBase64_toBase64_junk) (simp add: unbase64_def)

lemma decryptPayload_null: "p = JUndefined \<or> p = JNull \<Longrightarrow> decryptPayload H key p = Inl TypeError"
  by (auto simp: decryptPayload_def getProp_def bindE_def)

lemma decryptPayload_fields:
  assumes "p \<noteq> JUndefined" "p \<noteq> JNull"
  shows "decryptPayload H key p =
     (if \<not> truthy H (rawField p (str ''iv'')) \<or> \<not> truthy H (rawField p (str ''data''))
         \<or> \<not> truthy H (rawField p (str ''tag''))
      then Inl InvalidPayloadStructure
      else bindE (bufferFrom H (rawField p (str ''iv''))) (\<lambda>ivb.
           bindE (createCipheriv key ivb) (\<lambda>_.
           bindE (bufferFrom H (rawField p (str ''tag''))) (\<lambda>tb.
           bindE (setAuthTag tb) (\<lambda>_.
           bindE (bufferFrom H (rawField p (str ''data''))) (\<lambda>ct.
             decipherFinal key ivb tb ct))))))"
  by (simp add: decryptPayload_def getProp_rawField [OF assms] bindE_def)

lemma example_payload_decrypts:
  "decryptPayload H exampleKey (JObj [(str ''iv'', JStr (toBase64 exampleIv)),
       (str ''data'', JStr (toBase64 exampleCipher)),
       (str ''tag'', JStr (toBase64 exampleTag))]) = Inr examplePlain"
  unfolding exampleTag_def exampleCipher_def
  by (rule decrypt_encrypted) (simp_all add: exampleKey_def exampleIv_def examplePlain_def)

lemma example_parts:
  "toBase64 exampleIv \<noteq> []" "toBase64 exampleCipher \<noteq> []"
  "createCipheriv exampleKey exampleIv = Inr ()"
  "length exampleTag = 16"
  "decipherFinal exampleKey exampleIv exampleTag exampleCipher = Inr examplePlain"
proof -
  show "toBase64 exampleIv \<noteq> []"
    by (simp add: toBase64_eq_Nil exampleIv_def)
  show "toBase64 exampleCipher \<noteq> []"
    using length_gcmCrypt [of exampleKey exampleIv examplePlain]
    by (auto simp: toBase64_eq_Nil exampleCipher_def examplePlain_def)
  show "createCipheriv exampleKey exampleIv = Inr ()"
    by (simp add: createCipheriv_def exampleKey_def exampleIv_def)
  show len: "length exampleTag = 16"
    by (simp add: exampleTag_def length_gcmTag)
  then show "decipherFinal exampleKey exampleIv exampleTag exampleCipher = Inr examplePlain"
    by (simp add: decipherFinal_def exampleTag_def exampleCipher_def gcmCrypt_involution)
qed

text \<open>
  C4 (amended). For every payload and key, decryption never returns data when the
  authentication tag does not validate: whenever it returns data, the key has 32 bytes,
  the nonce has from 1 to 128 bytes, the tag supplied has 4, 8 or 12 to 16 bytes and
  equals the leading bytes of the tag computed from the key, the nonce and the
  ciphertext, and the data is the decryption of the whole ciphertext. A payload of which
  \<open>iv\<close>, \<open>data\<close> or \<open>tag\<close> is missing, \<open>null\<close> or empty is rejected; and
  when a payload decrypts, the same payload with any one bit of its tag flipped fails
  with an authentication error.
\<close>

theorem decrypt_fails_closed:
  "((\<not> truthy H (rawField p (str ''iv'')) \<or> \<not> truthy H (rawField p (str ''data''))
      \<or> \<not> truthy H (rawField p (str ''tag''))) \<longrightarrow>
        (\<exists>e. decryptPayload H key p = Inl e))
   \<and> (\<forall>plain. decryptPayload H key p = Inr plain \<longrightarrow>
         (\<exists>ivb t ct. bufferFrom H (rawField p (str ''iv'')) = Inr ivb
            \<and> bufferFrom H (rawField p (str ''tag'')) = Inr t
            \<and> bufferFrom H (rawField p (str ''data'')) = Inr ct
            \<and> length key = 32 \<and> 1 \<le> length ivb \<and> length ivb \<le> 128
            \<and> length t \<in> {4, 8, 12, 13, 14, 15, 16}
            \<and> take (length t) (gcmTag key ivb ct) = t
            \<and> plain = gcmCrypt key ivb ct))
   \<and> (\<forall>i c t plain n j.
         p = JObj [(str ''iv'', i), (str ''data'', c), (str ''tag'', JStr t)]
         \<and> decryptPayload H key p = Inr plain \<and> n < length (fromBase64 t) \<and> j < 8 \<longrightarrow>
         decryptPayload H key (JObj [(str ''iv'', i), (str ''data'', c),
             (str ''tag'', JStr (toBase64 (flipBit (fromBase64 t) n j)))])
           = Inl AuthenticationFailed)"
proof -
  have a: "\<exists>e. decryptPayload H key p = Inl e"
    if "\<not> truthy H (rawField p (str ''iv'')) \<or> \<not> truthy H (rawField p (str ''data''))
      \<or> \<not> truthy H (rawField p (str ''tag''))"
  proof (cases "p = JUndefined \<or> p = JNull")
    case True
    then show ?thesis by (simp add: decryptPayload_null)
  next
    case False
    with that show ?thesis by (simp add: decryptPayload_fields)
  qed
  have b: "\<exists>ivb t ct. bufferFrom H (rawField p (str ''iv'')) = Inr ivb
            \<and> bufferFrom H (rawField p (str ''tag'')) = Inr t
            \<and> bufferFrom H (rawField p (str ''data'')) = Inr ct
            \<and> length key = 32 \<and> 1 \<le> length ivb \<and> length ivb \<le> 128
            \<and> length t \<in> {4, 8, 12, 13, 14, 15, 16}
            \<and> take (length t) (gcmTag key ivb ct) = t
            \<and> plain = gcmCrypt key ivb ct"
    if ok: "decryptPayload H key p = Inr plain" for plain
  proof -
    from ok have nn: "p \<noteq> JUndefined" "p \<noteq> JNull"
      using decryptPayload_null [of p H key] by auto
    from ok obtain ivb t ct where
      "bufferFrom H (rawField p (str ''iv'')) = Inr ivb" "createCipheriv key ivb = Inr ()"
      "bufferFrom H (rawField p (str ''tag'')) = Inr t" "setAuthTag t = Inr ()"
      "bufferFrom H (rawField p (str ''data'')) = Inr ct"
      "decipherFinal key ivb t ct = Inr plain"
      by (auto simp: decryptPayload_fields [OF nn] bindE_Inr split: if_splits)
    moreover from this(2) have "length key = 32 \<and> 1 \<le> length ivb \<and> length ivb \<le> 128"
      by (cases ivb) (auto simp: createCipheriv_def split: if_splits)
    ultimately show ?thesis
      by (auto simp: setAuthTag_def decipherFinal_def split: if_splits)
  qed
  have c: "decryptPayload H key (JObj [(str ''iv'', i), (str ''data'', c),
             (str ''tag'', JStr (toBase64 (flipBit (fromBase64 t) n j)))])
           = Inl AuthenticationFailed"
    if "p = JObj [(str ''iv'', i), (str ''data'', c), (str ''tag'', JStr t)]"
      and "decryptPayload H key p = Inr plain" and "n < length (fromBase64 t)" and "j < 8"
    for i c t plain n j
    using that tag_mismatch_fails [of H key i c t plain "toBase64 (flipBit (fromBase64 t) n j)"]
    by (simp add: fromBase64_toBase64 flipBit_neq length_flipBit)
  from a b c show ?thesis by blast
qed

theorem decrypt_fails_closed_witness:
  "(\<exists>e. decryptPayload exampleHost exampleKey (JObj [(str ''iv'', JStr (toBase64 exampleIv))])
        = Inl e)
   \<and> decryptPayload exampleHost exampleKey (JObj [(str ''iv'', JStr (toBase64 exampleIv)),
         (str ''data'', JStr (toBase64 exampleCipher)),
         (str ''tag'', JStr (toBase64 exampleTag))]) = Inr examplePlain
   \<and> decryptPayload exampleHost exampleKey (JObj [(str ''iv'', JStr (toBase64 exampleIv)),
         (str ''data'', JStr (toBase64 exampleCipher)),
         (str ''tag'', JStr (toBase64 (flipBit exampleTag 0 0)))]) = Inl AuthenticationFailed"
proof -
  have missing: "\<not> truthy exampleHost
      (rawField (JObj [(str ''iv'', JStr (toBase64 exampleIv))]) (str ''data''))"
    by (simp add: rawField_def getProp_def truthy_def str_keys)
  note th1 = decrypt_fails_closed
    [of exampleHost "JObj [(str ''iv'', JStr (toBase64 exampleIv))]" exampleKey, THEN conjunct1]
  have a: "\<exists>e. decryptPayload exampleHost exampleKey
      (JObj [(str ''iv'', JStr (toBase64 exampleIv))]) = Inl e"
    by (rule th1 [THEN mp]) (simp only: missing simp_thms)
  have len: "0 < length (fromBase64 (toBase64 exampleTag))"
    by (simp add: fromBase64_toBase64 exampleTag_def length_gcmTag)
  note ok = example_payload_decrypts [of exampleHost]
  note th3 = decrypt_fails_closed
    [of exampleHost "JObj [(str ''iv'', JStr (toBase64 exampleIv)),
         (str ''data'', JStr (toBase64 exampleCipher)),
         (str ''tag'', JStr (toBase64 exampleTag))]" exampleKey,
      THEN conjunct2, THEN conjunct2, rule_format,
      of "JStr (toBase64 exampleIv)" "JStr (toBase64 exampleCipher)" "toBase64 exampleTag"
        examplePlain 0 0]
  have "decryptPayload exampleHost exampleKey (JObj [(str ''iv'', JStr (toBase64 exampleIv)),
         (str ''data'', JStr (toBase64 exampleCipher)),
         (str ''tag'', JStr (toBase64 (flipBit (fromBase64 (toBase64 exampleTag)) 0 0)))])
       = Inl AuthenticationFailed"
    by (rule th3) (intro conjI refl ok len, simp)
  then have c: "decryptPayload exampleHost exampleKey (JObj [(str ''iv'', JStr (toBase64 exampleIv)),
         (str ''data'', JStr (toBase64 exampleCipher)),
         (str ''tag'', JStr (toBase64 (flipBit exampleTag 0 0)))]) = Inl AuthenticationFailed"
    by (simp only: fromBase64_toBase64)
  show ?thesis
    by (intro conjI a ok c)
qed

text \<open>
  Three payloads that the claim has fail, and that decrypt: the example payload with a
  line feed after its tag, which is not well-formed base64; the payload made with a nonce
  of 16 bytes instead of 12; and the example payload with its tag cut to 4 bytes
  instead of 16.
\<close>

theorem lenient_payloads_accepted:
  "\<not> wellFormedBase64 (toBase64 exampleTag @ [0xA])
   \<and> decryptPayload exampleHost exampleKey (JObj [(str ''iv'', JStr (toBase64 exampleIv)),
         (str ''data'', JStr (toBase64 exampleCipher)),
         (str ''tag'', JStr (toBase64 exampleTag @ [0xA]))]) = Inr examplePlain
   \<and> length exampleIv16 = 16
   \<and> decryptPayload exampleHost exampleKey (JObj [(str ''iv'', JStr (toBase64 exampleIv16)),
         (str ''data'', JStr (toBase64 exampleCipher16)),
         (str ''tag'', JStr (toBase64 exampleTag16))]) = Inr examplePlain
   \<and> length (take 4 exampleTag) = 4
   \<and> decryptPayload exampleHost exampleKey (JObj [(str ''iv'', JStr (toBase64 exampleIv)),
         (str ''data'', JStr (toBase64 exampleCipher)),
         (str ''tag'', JStr (toBase64 (take 4 exampleTag)))]) = Inr examplePlain"
proof -
  note [simp] = example_parts
  have st: "setAuthTag exampleTag = Inr ()"
    by (simp add: setAuthTag_def)
  have one: "decryptPayload exampleHost exampleKey (JObj [(str ''iv'', JStr (toBase64 exampleIv)),
         (str ''data'', JStr (toBase64 exampleCipher)),
         (str ''tag'', JStr (toBase64 exampleTag @ [0xA]))]) = Inr examplePlain"
    by (simp add: decryptPayload_strings fromBase64_newline fromBase64_toBase64 st bindE_def)
  have l16: "length exampleIv16 = 16"
    by (simp add: exampleIv16_def)
  have two: "decryptPayload exampleHost exampleKey (JObj [(str ''iv'', JStr (toBase64 exampleIv16)),
         (str ''data'', JStr (toBase64 exampleCipher16)),
         (str ''tag'', JStr (toBase64 exampleTag16))]) = Inr examplePlain"
    unfolding exampleTag16_def exampleCipher16_def
    by (rule decrypt_encrypted) (simp_all add: exampleKey_def exampleIv16_def examplePlain_def)
  have l4: "length (take 4 exampleTag) = 4"
    by simp
  then have "take 4 exampleTag \<noteq> []"
    by (metis length_0_conv zero_neq_numeral)
  then have t4: "toBase64 (take 4 exampleTag) \<noteq> []"
    by (simp only: toBase64_eq_Nil not_False_eq_True)
  have st4: "setAuthTag (take 4 exampleTag) = Inr ()"
    by (simp add: setAuthTag_def)
  have "take 4 (gcmTag exampleKey exampleIv exampleCipher) = take 4 exampleTag"
    by (simp add: exampleTag_def)
  then have fin4: "decipherFinal exampleKey exampleIv (take 4 exampleTag) exampleCipher
      = Inr examplePlain"
    by (simp add: decipherFinal_def exampleCipher_def gcmCrypt_involution)
  have three: "decryptPayload exampleHost exampleKey (JObj [(str ''iv'', JStr (toBase64 exampleIv)),
         (str ''data'', JStr (toBase64 exampleCipher)),
         (str ''tag'', JStr (toBase64 (take 4 exampleTag)))]) = Inr examplePlain"
    by (simp add: decryptPayload_strings t4 fromBase64_toBase64 st4 fin4 bindE_def)
  show ?thesis
    by (intro conjI newline_not_wellFormed one l16 two l4 three)
qed

subsection \<open>Configuration\<close>


end
